theory Spec2Isabelle
  imports Complex_Main "HOL-Library.Sublist"
begin

section \<open>Interactive point collection: the two clicking scripts\<close>

text \<open>
  The repository holds two scripts, \<^verbatim>\<open>click_painting_corners.py\<close> (corner mode: four
  corners on each of six paintings) and \<^verbatim>\<open>click_points.py\<close> (correspondence mode:
  matching points on two images). Both are thin layers over a plotting library, the file
  system and the console. The embedding makes these three explicit: a \<open>world\<close> record
  holds the file system, the open figure windows and a trace of everything printed, shown
  and closed; what the operator does at each blocking wait is an argument of the function
  that waits. Every \<^verbatim>\<open>raise\<close> is a value \<open>Inl e\<close> paired with the world at the moment
  of the raise.

  Assumptions of the model: printing and writing the archive succeed; the operator's
  interrupt arrives at a blocking wait (a console read or a click session); every click
  session ends, by the Enter key or by the interrupt. Coordinates are real numbers: the
  scripts store and print them and compute nothing from them.
\<close>

subsection \<open>Data model\<close>

type_synonym point = "real \<times> real"

type_synonym archive = "(string \<times> point list) list"

datatype fs_entry = ImageFile | NpzFile archive | OtherFile

datatype error =
    FileNotFoundError string
  | ValueError nat nat
  | KeyboardInterrupt
  | EOFError
  | ImageReadError string
  | IndexError nat
  | KeyError nat

datatype title = CornersTitle nat string | Image3Title | Image4Title nat

datatype prompt = OverwritePrompt | StartPrompt string | StartImage3 | StartImage4 nat

datatype message =
    CornersIntro
  | ExitingWithoutOverwriting
  | ImageHeader nat string real real
  | CornerInstructions title
  | CollectedCorners string
  | CollectedPoints nat "(string \<times> point) list"
  | AllCollected string
  | Summary "(string \<times> nat) list"
  | LoadHint
  | PointsIntro
  | PointsInstructions title nat
  | CollectedFrom nat string
  | YouClicked nat
  | MismatchWarning nat nat nat
  | PointsCollected nat string
  | PointListing string "point list"
  | UseHint
  | ArrayLiteral string "point list"
  | Interrupted
  | ErrorMsg error

datatype event = Print message | Ask prompt | Show nat string | Close nat

record world =
  files :: "string \<Rightarrow> fs_entry option"
  windows :: "nat list"
  trace :: "event list"

type_synonym 'a result = "(error + 'a) \<times> world"

subsection \<open>The operator\<close>

text \<open>
  A console read returns the typed line, or is cut short by Ctrl-C or by the end of the
  input stream. A click session is what the operator does in one figure window: a sequence
  of left clicks and right clicks (remove the last point), ended by the Enter key or by
  Ctrl-C.
\<close>

datatype reply = Line string | CtrlC | EndOfInput

datatype gesture = Click point | Undo

datatype ending = Finish | Abort

type_synonym session = "gesture list \<times> ending"

subsection \<open>Console, file system and figures\<close>

definition console_print :: "message \<Rightarrow> world \<Rightarrow> world" where
  "console_print m w = w\<lparr>trace := trace w @ [Print m]\<rparr>"

definition py_input :: "prompt \<Rightarrow> reply \<Rightarrow> world \<Rightarrow> string result" where
  "py_input p r w =
     (let w' = w\<lparr>trace := trace w @ [Ask p]\<rparr>
      in case r of
           Line s \<Rightarrow> (Inr s, w')
         | CtrlC \<Rightarrow> (Inl KeyboardInterrupt, w')
         | EndOfInput \<Rightarrow> (Inl EOFError, w'))"

definition os_path_exists :: "world \<Rightarrow> string \<Rightarrow> bool" where
  "os_path_exists w p = (files w p \<noteq> None)"

definition imread :: "world \<Rightarrow> string \<Rightarrow> error + unit" where
  "imread w p = (case files w p of Some ImageFile \<Rightarrow> Inr () | _ \<Rightarrow> Inl (ImageReadError p))"

definition next_num :: "nat list \<Rightarrow> nat" where
  "next_num ws = (if ws = [] then 1 else Max (set ws) + 1)"

text \<open>\<^verbatim>\<open>plt.subplots\<close> followed by \<^verbatim>\<open>ax.imshow(img)\<close>: a new figure showing the image.\<close>

definition subplots_imshow :: "string \<Rightarrow> world \<Rightarrow> nat \<times> world" where
  "subplots_imshow p w =
     (let fig = next_num (windows w)
      in (fig, w\<lparr>windows := windows w @ [fig], trace := trace w @ [Show fig p]\<rparr>))"

definition plt_close :: "nat \<Rightarrow> world \<Rightarrow> world" where
  "plt_close fig w =
     w\<lparr>windows := filter (\<lambda>n. n \<noteq> fig) (windows w), trace := trace w @ [Close fig]\<rparr>"

definition savez :: "string \<Rightarrow> archive \<Rightarrow> world \<Rightarrow> world" where
  "savez name entries w = w\<lparr>files := (files w)(name \<mapsto> NpzFile entries)\<rparr>"

text \<open>
  The shape of \<^verbatim>\<open>np.array(points)\<close> for a list of coordinate pairs: \<open>(N, 2)\<close>, except
  that the empty list gives the one-dimensional shape \<open>(0,)\<close>.
\<close>

definition np_shape :: "point list \<Rightarrow> nat list" where
  "np_shape ps = (if ps = [] then [0] else [length ps, 2])"

subsection \<open>The click-capture facility\<close>

text \<open>
  \<^verbatim>\<open>plt.ginput(n, timeout=0)\<close>: every event is handled in turn; a left click appends a
  point, a right click removes the last point if there is one; after each event the loop
  stops when exactly \<open>n\<close> points are held and \<open>n > 0\<close>. The Enter key stops the loop at
  any moment, whatever \<open>n\<close> is, and the points held so far are returned. With
  \<open>timeout = 0\<close> nothing else ends the wait but Ctrl-C.
\<close>

fun handler :: "gesture \<Rightarrow> point list \<Rightarrow> point list" where
  "handler (Click p) clicks = clicks @ [p]"
| "handler Undo clicks = butlast clicks"

fun event_loop :: "int \<Rightarrow> gesture list \<Rightarrow> point list \<Rightarrow> point list \<times> bool" where
  "event_loop n [] clicks = (clicks, False)"
| "event_loop n (g # gs) clicks =
     (let clicks' = handler g clicks
      in if int (length clicks') = n \<and> n > 0 then (clicks', True)
         else event_loop n gs clicks')"

definition ginput :: "int \<Rightarrow> session \<Rightarrow> error + point list" where
  "ginput n s =
     (case event_loop n (fst s) [] of
        (clicks, True) \<Rightarrow> Inr clicks
      | (clicks, False) \<Rightarrow>
          (case snd s of Finish \<Rightarrow> Inr clicks | Abort \<Rightarrow> Inl KeyboardInterrupt))"

subsection \<open>\<^verbatim>\<open>click_points.py\<close>\<close>

definition click_points_on_image ::
  "string \<Rightarrow> title \<Rightarrow> nat \<Rightarrow> session \<Rightarrow> world \<Rightarrow> point list result" where
  "click_points_on_image image_path ttl min_points s w =
     (if \<not> os_path_exists w image_path then (Inl (FileNotFoundError image_path), w)
      else case imread w image_path of
        Inl e \<Rightarrow> (Inl e, w)
      | Inr img \<Rightarrow>
          (case subplots_imshow image_path w of (fig, w1) \<Rightarrow>
             (let w2 = console_print (PointsInstructions ttl min_points) w1
              in case ginput (- 1) s of
                   Inl e \<Rightarrow> (Inl e, w2)
                 | Inr points \<Rightarrow>
                     if length points < min_points
                     then (Inl (ValueError min_points (length points)), w2)
                     else (let w3 = plt_close fig w2;
                               w4 = console_print (CollectedFrom (length points) image_path) w3
                           in (Inr points, w4)))))"

record points_operator =
  start1 :: reply
  session1 :: session
  start2 :: reply
  session2 :: session

definition img1_path :: string where "img1_path = ''image_3.png''"
definition img2_path :: string where "img2_path = ''image_4.png''"
definition points_output_file :: string where "points_output_file = ''correspondence_points.npz''"

text \<open>Lines 113 to 161 of \<^verbatim>\<open>main\<close>: reconcile the two counts, save, report.\<close>

definition reconcile_and_save :: "point list \<Rightarrow> point list \<Rightarrow> world \<Rightarrow> unit result" where
  "reconcile_and_save points_img1 points_img2 w =
     (let (p1, p2, w1) =
            (if length points_img2 \<noteq> length points_img1
             then (let n_points = min (length points_img1) (length points_img2)
                   in (take n_points points_img1, take n_points points_img2,
                       console_print
                         (MismatchWarning (length points_img1) (length points_img2) n_points) w))
             else (points_img1, points_img2, w));
          w2 = savez points_output_file [(''image1points'', p1), (''image2points'', p2)] w1;
          w3 = console_print (PointsCollected (length p1) points_output_file) w2;
          w4 = console_print (PointListing ''Image 3'' p1) w3;
          w5 = console_print (PointListing ''Image 4'' p2) w4;
          w6 = console_print UseHint w5;
          w7 = console_print (ArrayLiteral ''image1points'' p1) w6;
          w8 = console_print (ArrayLiteral ''image2points'' p2) w7
      in (Inr (), w8))"

definition main_points :: "points_operator \<Rightarrow> world \<Rightarrow> unit result" where
  "main_points op w =
     (let w1 = console_print PointsIntro w
      in case py_input StartImage3 (start1 op) w1 of
        (Inl e, w2) \<Rightarrow> (Inl e, w2)
      | (Inr _, w2) \<Rightarrow>
          (case click_points_on_image img1_path Image3Title 4 (session1 op) w2 of
             (Inl e, w3) \<Rightarrow> (Inl e, w3)
           | (Inr points_img1, w3) \<Rightarrow>
               (let w4 = console_print (YouClicked (length points_img1)) w3
                in case py_input (StartImage4 (length points_img1)) (start2 op) w4 of
                  (Inl e, w5) \<Rightarrow> (Inl e, w5)
                | (Inr _, w5) \<Rightarrow>
                    (case click_points_on_image img2_path (Image4Title (length points_img1))
                            (length points_img1) (session2 op) w5 of
                       (Inl e, w6) \<Rightarrow> (Inl e, w6)
                     | (Inr points_img2, w6) \<Rightarrow>
                         reconcile_and_save points_img1 points_img2 w6))))"

text \<open>The \<^verbatim>\<open>__main__\<close> block: the outcome of the process.\<close>

datatype exit = Clean | Failure error

definition points_script :: "points_operator \<Rightarrow> world \<Rightarrow> exit \<times> world" where
  "points_script op w =
     (case main_points op w of
        (Inr _, w') \<Rightarrow> (Clean, w')
      | (Inl KeyboardInterrupt, w') \<Rightarrow> (Clean, console_print Interrupted w')
      | (Inl e, w') \<Rightarrow> (Failure e, console_print (ErrorMsg e) w'))"

subsection \<open>\<^verbatim>\<open>click_painting_corners.py\<close>\<close>

text \<open>
  The module-level tables. File names are byte strings; the dash and the accented letter
  of the names are written as their UTF-8 bytes.
\<close>

definition paintings_wh :: "(real \<times> real) list" where
  "paintings_wh =
     [(121.3, 82.9), (92.1, 73.7), (233.7, 243.9), (390.1, 259.7), (130.2, 162.3),
      (200.7, 250.8)]"

definition emdash :: string where
  "emdash = [CHR 0xE2, CHR 0x80, CHR 0x94]"

definition image_files :: "string list" where
  "image_files =
     [''Christinas World '' @ emdash @ '' Wyeth.jpeg'',
      ''The Starry Night '' @ emdash @ '' Van Gogh.jpeg'',
      ''Les Demoiselles dAvignon '' @ emdash @ '' Picasso.jpeg'',
      ''Dance (I) '' @ emdash @ '' Matisse.jpeg'',
      ''Girl Before a Mirror '' @ emdash @ '' Picasso.jpeg'',
      ''The Birth of the World '' @ emdash @ '' Mir'' @ [CHR 0xC3, CHR 0xB3] @ ''.jpeg'']"

definition corners_output_file :: string where
  "corners_output_file = ''painting_corners.npz''"

definition labels :: "string list" where
  "labels = [''Top-left'', ''Top-right'', ''Bottom-right'', ''Bottom-left'']"

text \<open>\<^verbatim>\<open>str.lower\<close> on the ASCII letters; every other byte is left as it is.\<close>

definition lower_char :: "char \<Rightarrow> char" where
  "lower_char c =
     (case map_of (zip ''ABCDEFGHIJKLMNOPQRSTUVWXYZ'' ''abcdefghijklmnopqrstuvwxyz'') c of
        Some l \<Rightarrow> l
      | None \<Rightarrow> c)"

definition str_lower :: "string \<Rightarrow> string" where
  "str_lower s = map lower_char s"

text \<open>
  \<^verbatim>\<open>click_corners\<close>. The conversion \<^verbatim>\<open>np.array(points)\<close> keeps the points and their order;
  the list stands for the array, and \<open>np_shape\<close> gives its shape.
\<close>

definition click_corners :: "string \<Rightarrow> title \<Rightarrow> session \<Rightarrow> world \<Rightarrow> point list result" where
  "click_corners image_path ttl s w =
     (if \<not> os_path_exists w image_path then (Inl (FileNotFoundError image_path), w)
      else case imread w image_path of
        Inl e \<Rightarrow> (Inl e, w)
      | Inr img \<Rightarrow>
          (case subplots_imshow image_path w of (fig, w1) \<Rightarrow>
             (let w2 = console_print (CornerInstructions ttl) w1
              in case ginput 4 s of
                   Inl e \<Rightarrow> (Inl e, w2)
                 | Inr points \<Rightarrow>
                     (let w3 = plt_close fig w2;
                          corners = points;
                          w4 = console_print (CollectedCorners image_path) w3
                      in (Inr corners, w4)))))"

record corner_operator =
  overwrite_reply :: reply
  start_reply :: "nat \<Rightarrow> reply"
  corner_session :: "nat \<Rightarrow> session"

text \<open>
  Lines 111 to 116 of \<^verbatim>\<open>main\<close>: \<open>Inr True\<close> goes on to the images, \<open>Inr False\<close> is the
  early \<^verbatim>\<open>return\<close>.
\<close>

definition confirm_overwrite :: "corner_operator \<Rightarrow> world \<Rightarrow> bool result" where
  "confirm_overwrite op w =
     (if os_path_exists w corners_output_file
      then (case py_input OverwritePrompt (overwrite_reply op) w of
              (Inl e, w1) \<Rightarrow> (Inl e, w1)
            | (Inr response, w1) \<Rightarrow>
                if str_lower response \<noteq> ''y''
                then (Inr False, console_print ExitingWithoutOverwriting w1)
                else (Inr True, w1))
      else (Inr True, w))"

text \<open>
  The loop of lines 122 to 142 over \<^verbatim>\<open>enumerate(image_files)\<close>: \<open>loop_body\<close> is one
  iteration, \<open>collect\<close> the loop. The table of dimensions is an argument, so that runs with
  different tables can be compared; a table with too few rows raises at
  \<^verbatim>\<open>paintings_wh[i]\<close>.
\<close>

definition loop_body ::
  "(real \<times> real) list \<Rightarrow> corner_operator \<Rightarrow> nat \<Rightarrow> string \<Rightarrow>
   (nat \<Rightarrow> point list option) \<Rightarrow> world \<Rightarrow> (nat \<Rightarrow> point list option) result" where
  "loop_body dims op i img_file corner_points w =
     (if length dims \<le> i then (Inl (IndexError i), w)
      else case dims ! i of (width_cm, height_cm) \<Rightarrow>
        (let w1 = console_print (ImageHeader (i + 1) img_file width_cm height_cm) w
         in case py_input (StartPrompt img_file) (start_reply op i) w1 of
              (Inl e, w2) \<Rightarrow> (Inl e, w2)
            | (Inr _, w2) \<Rightarrow>
                (case click_corners img_file (CornersTitle (i + 1) img_file)
                        (corner_session op i) w2 of
                   (Inl e, w3) \<Rightarrow> (Inl e, w3)
                 | (Inr corners, w3) \<Rightarrow>
                     (Inr (corner_points(i \<mapsto> corners)),
                      console_print (CollectedPoints (i + 1) (zip labels corners)) w3))))"

fun collect ::
  "(real \<times> real) list \<Rightarrow> corner_operator \<Rightarrow> (nat \<times> string) list \<Rightarrow>
   (nat \<Rightarrow> point list option) \<Rightarrow> world \<Rightarrow> (nat \<Rightarrow> point list option) result" where
  "collect dims op [] corner_points w = (Inr corner_points, w)"
| "collect dims op ((i, img_file) # rest) corner_points w =
     (case loop_body dims op i img_file corner_points w of
        (Inl e, w') \<Rightarrow> (Inl e, w')
      | (Inr corner_points', w') \<Rightarrow> collect dims op rest corner_points' w')"

text \<open>Lines 144 to 174: \<^verbatim>\<open>corner_points[k]\<close> raises on a missing key.\<close>

definition save_corners :: "(nat \<Rightarrow> point list option) \<Rightarrow> world \<Rightarrow> unit result" where
  "save_corners corner_points w =
     (case find (\<lambda>k. corner_points k = None) [0..<6] of
        Some k \<Rightarrow> (Inl (KeyError k), w)
      | None \<Rightarrow>
          (let c = (\<lambda>k. the (corner_points k));
               w1 = savez corners_output_file
                      [(''corners_0'', c 0), (''corners_1'', c 1), (''corners_2'', c 2),
                       (''corners_3'', c 3), (''corners_4'', c 4), (''corners_5'', c 5)] w;
               w2 = console_print (AllCollected corners_output_file) w1;
               w3 = console_print
                      (Summary (map (\<lambda>i. (image_files ! i, length (c i))) [0..<6])) w2;
               w4 = console_print LoadHint w3
           in (Inr (), w4)))"

definition main_corners_with ::
  "(real \<times> real) list \<Rightarrow> corner_operator \<Rightarrow> world \<Rightarrow> unit result" where
  "main_corners_with dims op w =
     (let w1 = console_print CornersIntro w
      in case confirm_overwrite op w1 of
           (Inl e, w2) \<Rightarrow> (Inl e, w2)
         | (Inr False, w2) \<Rightarrow> (Inr (), w2)
         | (Inr True, w2) \<Rightarrow>
             (case collect dims op (enumerate 0 image_files) Map.empty w2 of
                (Inl e, w3) \<Rightarrow> (Inl e, w3)
              | (Inr corner_points, w3) \<Rightarrow> save_corners corner_points w3))"

definition main_corners :: "corner_operator \<Rightarrow> world \<Rightarrow> unit result" where
  "main_corners op w = main_corners_with paintings_wh op w"

definition corners_script :: "corner_operator \<Rightarrow> world \<Rightarrow> exit \<times> world" where
  "corners_script op w =
     (case main_corners op w of
        (Inr _, w') \<Rightarrow> (Clean, w')
      | (Inl KeyboardInterrupt, w') \<Rightarrow> (Clean, console_print Interrupted w')
      | (Inl e, w') \<Rightarrow> (Failure e, console_print (ErrorMsg e) w'))"

subsection \<open>Comparing runs, and concrete runs\<close>

text \<open>A trace with the painting dimensions blanked out of the image headers.\<close>

fun erase_dims :: "event \<Rightarrow> event" where
  "erase_dims (Print (ImageHeader i f wd ht)) = Print (ImageHeader i f 0 0)"
| "erase_dims e = e"

text \<open>
  Two worlds are alike when they have the same files and the same open figures, and their
  traces differ at most in the dimensions shown in image headers.
\<close>

definition alike :: "world \<Rightarrow> world \<Rightarrow> bool" where
  "alike w1 w2 =
     (files w1 = files w2 \<and> windows w1 = windows w2 \<and>
      map erase_dims (trace w1) = map erase_dims (trace w2))"

text \<open>The events of a whole successful run of correspondence mode, for the lemmas below.\<close>

definition points_run_trace :: "nat \<Rightarrow> point list \<Rightarrow> point list \<Rightarrow> event list" where
  "points_run_trace fig p1 p2 =
     [Print PointsIntro, Ask StartImage3,
      Show fig img1_path, Print (PointsInstructions Image3Title 4), Close fig,
      Print (CollectedFrom (length p1) img1_path),
      Print (YouClicked (length p1)), Ask (StartImage4 (length p1)),
      Show fig img2_path,
      Print (PointsInstructions (Image4Title (length p1)) (length p1)), Close fig,
      Print (CollectedFrom (length p2) img2_path)] @
     (if length p2 \<noteq> length p1
      then [Print (MismatchWarning (length p1) (length p2) (length p1))] else []) @
     [Print (PointsCollected (length p1) points_output_file),
      Print (PointListing ''Image 3'' p1),
      Print (PointListing ''Image 4'' (take (length p1) p2)),
      Print UseHint,
      Print (ArrayLiteral ''image1points'' p1),
      Print (ArrayLiteral ''image2points'' (take (length p1) p2))]"

text \<open>What a run added to the trace.\<close>

definition emitted :: "world \<Rightarrow> world \<Rightarrow> event list" where
  "emitted w w' = drop (length (trace w)) (trace w')"

text \<open>
  Two small worlds: one holding the two images of correspondence mode, one holding the six
  paintings, and a third with the six paintings and an archive of an earlier run.
\<close>

definition two_images :: world where
  "two_images =
     \<lparr>files = (\<lambda>p. if p = ''image_3.png'' \<or> p = ''image_4.png'' then Some ImageFile else None),
      windows = [], trace = []\<rparr>"

definition six_paintings :: world where
  "six_paintings =
     \<lparr>files = (\<lambda>p. if p \<in> set image_files then Some ImageFile else None),
      windows = [], trace = []\<rparr>"

definition earlier_archive :: archive where
  "earlier_archive = [(''corners_0'', [(0, 0), (9, 0), (9, 9), (0, 9)])]"

definition six_paintings_saved :: world where
  "six_paintings_saved =
     \<lparr>files = (\<lambda>p. if p \<in> set image_files then Some ImageFile
                   else if p = ''painting_corners.npz'' then Some (NpzFile earlier_archive)
                   else None),
      windows = [], trace = []\<rparr>"

text \<open>Click sessions: two, four and five left clicks followed by Enter; one cut by Ctrl-C.\<close>

definition two_clicks :: session where
  "two_clicks = ([Click (1, 1), Click (2, 1)], Finish)"

definition four_clicks :: session where
  "four_clicks = ([Click (1, 1), Click (2, 1), Click (2, 2), Click (1, 2)], Finish)"

definition five_clicks :: session where
  "five_clicks = ([Click (1, 1), Click (2, 1), Click (2, 2), Click (1, 2), Click (3, 3)], Finish)"

definition cut_short :: session where
  "cut_short = ([Click (1, 1)], Abort)"

definition four_then_five :: points_operator where
  "four_then_five =
     \<lparr>start1 = Line [], session1 = four_clicks, start2 = Line [], session2 = five_clicks\<rparr>"

definition five_then_four :: points_operator where
  "five_then_four =
     \<lparr>start1 = Line [], session1 = five_clicks, start2 = Line [], session2 = four_clicks\<rparr>"

definition four_then_ctrl_c :: points_operator where
  "four_then_ctrl_c =
     \<lparr>start1 = Line [], session1 = four_clicks, start2 = Line [], session2 = cut_short\<rparr>"

definition careful :: corner_operator where
  "careful =
     \<lparr>overwrite_reply = Line ''y'', start_reply = (\<lambda>i. Line []),
      corner_session = (\<lambda>i. four_clicks)\<rparr>"

definition hasty :: corner_operator where
  "hasty =
     \<lparr>overwrite_reply = Line ''y'', start_reply = (\<lambda>i. Line []),
      corner_session = (\<lambda>i. if i = 0 then two_clicks else four_clicks)\<rparr>"

definition declining :: corner_operator where
  "declining =
     \<lparr>overwrite_reply = Line ''n'', start_reply = (\<lambda>i. Line []),
      corner_session = (\<lambda>i. four_clicks)\<rparr>"

definition interrupting :: corner_operator where
  "interrupting =
     \<lparr>overwrite_reply = Line ''y'', start_reply = (\<lambda>i. CtrlC),
      corner_session = (\<lambda>i. four_clicks)\<rparr>"

section \<open>Properties\<close>

subsection \<open>Figures, console and the capture functions\<close>

lemma next_num_fresh: "next_num ws \<notin> set ws"
proof (cases "ws = []")
  case True
  then show ?thesis by simp
next
  case False
  have "\<forall>n \<in> set ws. n \<le> Max (set ws)" by simp
  then have "\<forall>n \<in> set ws. n < next_num ws"
    using False by (auto simp: next_num_def less_Suc_eq_le)
  then show ?thesis by blast
qed

lemma close_after_open [simp]: "filter (\<lambda>n. n \<noteq> next_num ws) ws = ws"
proof (rule filter_True)
  show "\<forall>n \<in> set ws. n \<noteq> next_num ws"
    using next_num_fresh [of ws] by blast
qed

lemma click_points_on_image_ok:
  assumes "files w p = Some ImageFile" and "ginput (- 1) s = Inr pts" and "m \<le> length pts"
  shows "click_points_on_image p t m s w =
    (Inr pts, w\<lparr>trace := trace w @
       [Show (next_num (windows w)) p, Print (PointsInstructions t m),
        Close (next_num (windows w)), Print (CollectedFrom (length pts) p)]\<rparr>)"
  using assms
  by (simp add: click_points_on_image_def os_path_exists_def imread_def subplots_imshow_def
      console_print_def plt_close_def Let_def)

lemma click_points_on_image_short:
  assumes "files w p = Some ImageFile" and "ginput (- 1) s = Inr pts" and "length pts < m"
  shows "click_points_on_image p t m s w =
    (Inl (ValueError m (length pts)),
     w\<lparr>windows := windows w @ [next_num (windows w)],
       trace := trace w @ [Show (next_num (windows w)) p, Print (PointsInstructions t m)]\<rparr>)"
  using assms
  by (simp add: click_points_on_image_def os_path_exists_def imread_def subplots_imshow_def
      console_print_def Let_def)

lemma click_points_on_image_files:
  "files (snd (click_points_on_image p t m s w)) = files w"
  by (simp add: click_points_on_image_def os_path_exists_def imread_def subplots_imshow_def
      console_print_def plt_close_def Let_def split: option.splits fs_entry.splits sum.splits)

lemma click_points_on_image_InrD:
  assumes "fst (click_points_on_image p t m s w) = Inr pts"
  shows "files w p = Some ImageFile \<and> ginput (- 1) s = Inr pts \<and> m \<le> length pts"
  using assms
  by (auto simp: click_points_on_image_def os_path_exists_def imread_def subplots_imshow_def
      console_print_def plt_close_def Let_def split: option.splits fs_entry.splits sum.splits if_splits)

lemma py_input_Line: "py_input p (Line l) w = (Inr l, w\<lparr>trace := trace w @ [Ask p]\<rparr>)"
  by (simp add: py_input_def)

lemma py_input_files: "files (snd (py_input p r w)) = files w"
  by (simp add: py_input_def Let_def split: reply.splits)

lemma py_input_InrD:
  "py_input p r w = (Inr l, w') \<Longrightarrow> r = Line l \<and> files w' = files w"
  by (auto simp: py_input_def Let_def split: reply.splits)

lemma click_points_on_image_eq_InrD:
  assumes "click_points_on_image p t m s w = (Inr pts, w')"
  shows "files w p = Some ImageFile \<and> ginput (- 1) s = Inr pts \<and> m \<le> length pts \<and>
         files w' = files w"
proof -
  have "fst (click_points_on_image p t m s w) = Inr pts" using assms by simp
  moreover have "files (snd (click_points_on_image p t m s w)) = files w"
    by (rule click_points_on_image_files)
  ultimately show ?thesis using assms click_points_on_image_InrD by fastforce
qed

lemma reconcile_and_save_longer:
  assumes "length p1 \<le> length p2"
  shows "reconcile_and_save p1 p2 w =
    (Inr (),
     w\<lparr>files := (files w)(points_output_file \<mapsto>
          NpzFile [(''image1points'', p1), (''image2points'', take (length p1) p2)]),
       trace := trace w @
         (if length p2 \<noteq> length p1
          then [Print (MismatchWarning (length p1) (length p2) (length p1))] else []) @
         [Print (PointsCollected (length p1) points_output_file),
          Print (PointListing ''Image 3'' p1),
          Print (PointListing ''Image 4'' (take (length p1) p2)),
          Print UseHint,
          Print (ArrayLiteral ''image1points'' p1),
          Print (ArrayLiteral ''image2points'' (take (length p1) p2))]\<rparr>)"
  using assms
  by (simp add: reconcile_and_save_def console_print_def savez_def Let_def min_def)

lemma main_points_ok:
  assumes "files w img1_path = Some ImageFile" and "files w img2_path = Some ImageFile"
    and "start1 op = Line l1" and "start2 op = Line l2"
    and "ginput (- 1) (session1 op) = Inr p1" and "ginput (- 1) (session2 op) = Inr p2"
    and "4 \<le> length p1" and "length p1 \<le> length p2"
  shows "main_points op w =
    (Inr (),
     w\<lparr>files := (files w)(points_output_file \<mapsto>
          NpzFile [(''image1points'', p1), (''image2points'', take (length p1) p2)]),
       trace := trace w @ points_run_trace (next_num (windows w)) p1 p2\<rparr>)"
  using assms
  by (simp add: main_points_def console_print_def py_input_Line click_points_on_image_ok
      reconcile_and_save_longer points_run_trace_def Let_def)

lemma main_points_InrD:
  assumes "fst (main_points op w) = Inr ()"
  shows "\<exists>l1 l2 p1 p2. files w img1_path = Some ImageFile \<and> files w img2_path = Some ImageFile \<and>
     start1 op = Line l1 \<and> start2 op = Line l2 \<and>
     ginput (- 1) (session1 op) = Inr p1 \<and> ginput (- 1) (session2 op) = Inr p2 \<and>
     4 \<le> length p1 \<and> length p1 \<le> length p2"
proof -
  let ?w1 = "console_print PointsIntro w"
  have f1: "files ?w1 = files w" by (simp add: console_print_def)
  obtain r2 w2 where i1: "py_input StartImage3 (start1 op) ?w1 = (r2, w2)"
    by (cases "py_input StartImage3 (start1 op) ?w1")
  with assms obtain l1 where r2: "r2 = Inr l1"
    by (cases r2) (auto simp: main_points_def Let_def)
  from i1 r2 have s1: "start1 op = Line l1" and f2: "files w2 = files ?w1"
    using py_input_InrD by blast+
  obtain r3 w3 where c1: "click_points_on_image img1_path Image3Title 4 (session1 op) w2 = (r3, w3)"
    by (cases "click_points_on_image img1_path Image3Title 4 (session1 op) w2")
  with assms i1 r2 obtain p1 where r3: "r3 = Inr p1"
    by (cases r3) (auto simp: main_points_def Let_def)
  from c1 r3 have g1: "files w2 img1_path = Some ImageFile" "ginput (- 1) (session1 op) = Inr p1"
      "4 \<le> length p1" "files w3 = files w2"
    using click_points_on_image_eq_InrD by blast+
  let ?w4 = "console_print (YouClicked (length p1)) w3"
  have f4: "files ?w4 = files w3" by (simp add: console_print_def)
  obtain r5 w5 where i2: "py_input (StartImage4 (length p1)) (start2 op) ?w4 = (r5, w5)"
    by (cases "py_input (StartImage4 (length p1)) (start2 op) ?w4")
  with assms i1 r2 c1 r3 obtain l2 where r5: "r5 = Inr l2"
    by (cases r5) (auto simp: main_points_def Let_def)
  from i2 r5 have s2: "start2 op = Line l2" and f5: "files w5 = files ?w4"
    using py_input_InrD by blast+
  obtain r6 w6 where c2: "click_points_on_image img2_path (Image4Title (length p1))
      (length p1) (session2 op) w5 = (r6, w6)"
    by (cases "click_points_on_image img2_path (Image4Title (length p1))
      (length p1) (session2 op) w5")
  with assms i1 r2 c1 r3 i2 r5 obtain p2 where r6: "r6 = Inr p2"
    by (cases r6) (auto simp: main_points_def Let_def)
  from c2 r6 have g2: "files w5 img2_path = Some ImageFile" "ginput (- 1) (session2 op) = Inr p2"
      "length p1 \<le> length p2"
    using click_points_on_image_eq_InrD by blast+
  from g1 f1 f2 have "files w img1_path = Some ImageFile" by simp
  moreover from g2 f5 f4 g1 f2 f1 have "files w img2_path = Some ImageFile" by simp
  ultimately show ?thesis using s1 s2 g1 g2 by blast
qed

lemma click_corners_ok:
  assumes "files w p = Some ImageFile" and "ginput 4 s = Inr pts"
  shows "click_corners p t s w =
    (Inr pts, w\<lparr>trace := trace w @
       [Show (next_num (windows w)) p, Print (CornerInstructions t),
        Close (next_num (windows w)), Print (CollectedCorners p)]\<rparr>)"
  using assms
  by (simp add: click_corners_def os_path_exists_def imread_def subplots_imshow_def
      console_print_def plt_close_def Let_def)

lemma click_corners_files: "files (snd (click_corners p t s w)) = files w"
  by (simp add: click_corners_def os_path_exists_def imread_def subplots_imshow_def
      console_print_def plt_close_def Let_def split: option.splits fs_entry.splits sum.splits)

lemma click_corners_InrD:
  assumes "click_corners p t s w = (Inr pts, w')"
  shows "files w p = Some ImageFile \<and> ginput 4 s = Inr pts \<and> files w' = files w"
proof -
  have "files w' = files w" using click_corners_files [of p t s w] assms by simp
  moreover have "files w p = Some ImageFile \<and> ginput 4 s = Inr pts"
    using assms
    by (auto simp: click_corners_def os_path_exists_def imread_def subplots_imshow_def
      console_print_def plt_close_def Let_def split: option.splits fs_entry.splits sum.splits if_splits)
  ultimately show ?thesis by simp
qed

lemma loop_body_files: "files (snd (loop_body dims op i f cp w)) = files w"
proof -
  have "\<And>p r w. files (snd (py_input p r w)) = files w" by (rule py_input_files)
  then have a: "\<And>p r w x w'. py_input p r w = (x, w') \<Longrightarrow> files w' = files w"
    by (metis snd_conv)
  have b: "\<And>p t s w x w'. click_corners p t s w = (x, w') \<Longrightarrow> files w' = files w"
    by (metis click_corners_files snd_conv)
  show ?thesis
    by (auto simp: loop_body_def Let_def console_print_def
        split: prod.splits sum.splits dest!: a b)
qed

lemma collect_files: "files (snd (collect dims op xs cp w)) = files w"
proof (induction xs arbitrary: cp w)
  case Nil
  then show ?case by simp
next
  case (Cons x xs)
  obtain i f where x: "x = (i, f)" by (cases x)
  obtain r w' where b: "loop_body dims op i f cp w = (r, w')"
    by (cases "loop_body dims op i f cp w")
  have fw: "files w' = files w" using loop_body_files [of dims op i f cp w] b by simp
  show ?case
  proof (cases r)
    case (Inl e)
    with x b fw show ?thesis by simp
  next
    case (Inr cp')
    with x b fw Cons.IH [of cp' w'] show ?thesis by simp
  qed
qed

subsection \<open>The concrete runs\<close>

lemma ginput_two_free: "ginput (- 1) two_clicks = Inr [(1, 1), (2, 1)]"
  by (simp add: ginput_def two_clicks_def)

lemma ginput_two_4: "ginput 4 two_clicks = Inr [(1, 1), (2, 1)]"
  by (simp add: ginput_def two_clicks_def)

lemma ginput_four_free: "ginput (- 1) four_clicks = Inr [(1, 1), (2, 1), (2, 2), (1, 2)]"
  by (simp add: ginput_def four_clicks_def)

lemma ginput_five_free: "ginput (- 1) five_clicks = Inr [(1, 1), (2, 1), (2, 2), (1, 2), (3, 3)]"
  by (simp add: ginput_def five_clicks_def)

lemma ginput_four_4: "ginput 4 four_clicks = Inr [(1, 1), (2, 1), (2, 2), (1, 2)]"
  by (simp add: ginput_def four_clicks_def)

lemma ginput_cut_short: "ginput (- 1) cut_short = Inl KeyboardInterrupt"
  by (simp add: ginput_def cut_short_def)

lemma two_images_files:
  "files two_images img1_path = Some ImageFile" "files two_images img2_path = Some ImageFile"
  "files two_images points_output_file = None"
  by (simp_all add: two_images_def img1_path_def img2_path_def points_output_file_def)

lemma four_then_five_ok: "fst (main_points four_then_five two_images) = Inr ()"
proof -
  have "main_points four_then_five two_images =
    (Inr (), two_images\<lparr>files := (files two_images)(points_output_file \<mapsto>
          NpzFile [(''image1points'', [(1, 1), (2, 1), (2, 2), (1, 2)]),
                   (''image2points'',
                    take (length [(1::real, 1::real), (2, 1), (2, 2), (1, 2)])
                      [(1, 1), (2, 1), (2, 2), (1, 2), (3, 3)])]),
       trace := trace two_images @
         points_run_trace (next_num (windows two_images))
           [(1, 1), (2, 1), (2, 2), (1, 2)] [(1, 1), (2, 1), (2, 2), (1, 2), (3, 3)]\<rparr>)"
    by (rule main_points_ok [where ?l1.0 = "[]" and ?l2.0 = "[]"])
       (simp_all add: two_images_files four_then_five_def ginput_four_free ginput_five_free)
  then show ?thesis by simp
qed

lemma main_points_short:
  assumes "files w img1_path = Some ImageFile" and "files w img2_path = Some ImageFile"
    and "start1 op = Line l1" and "start2 op = Line l2"
    and "ginput (- 1) (session1 op) = Inr p1" and "ginput (- 1) (session2 op) = Inr p2"
    and "4 \<le> length p1" and "length p2 < length p1"
  shows "main_points op w =
    (Inl (ValueError (length p1) (length p2)),
     w\<lparr>windows := windows w @ [next_num (windows w)],
       trace := trace w @
         [Print PointsIntro, Ask StartImage3,
          Show (next_num (windows w)) img1_path, Print (PointsInstructions Image3Title 4),
          Close (next_num (windows w)), Print (CollectedFrom (length p1) img1_path),
          Print (YouClicked (length p1)), Ask (StartImage4 (length p1)),
          Show (next_num (windows w)) img2_path,
          Print (PointsInstructions (Image4Title (length p1)) (length p1))]\<rparr>)"
  using assms
  by (simp add: main_points_def console_print_def py_input_Line click_points_on_image_ok
      click_points_on_image_short Let_def)

lemma five_then_four_run:
  "fst (main_points five_then_four two_images) = Inl (ValueError 5 4) \<and>
   files (snd (main_points five_then_four two_images)) = files two_images"
proof -
  have g1: "ginput (- 1) (session1 five_then_four) = Inr [(1, 1), (2, 1), (2, 2), (1, 2), (3, 3)]"
    by (simp add: five_then_four_def ginput_five_free)
  have g2: "ginput (- 1) (session2 five_then_four) = Inr [(1, 1), (2, 1), (2, 2), (1, 2)]"
    by (simp add: five_then_four_def ginput_four_free)
  have s1: "start1 five_then_four = Line []" and s2: "start2 five_then_four = Line []"
    by (simp_all add: five_then_four_def)
  have n: "4 \<le> length [(1::real, 1::real), (2, 1), (2, 2), (1, 2), (3, 3)]"
    "length [(1::real, 1::real), (2, 1), (2, 2), (1, 2)] <
     length [(1::real, 1::real), (2, 1), (2, 2), (1, 2), (3, 3)]"
    by simp_all
  from main_points_short [OF two_images_files(1) two_images_files(2) s1 s2 g1 g2 n]
  show ?thesis by (simp add: eval_nat_numeral)
qed

subsection \<open>Correspondence mode\<close>

text \<open>
  C10. Every successful run of correspondence mode stores two arrays as long as the first
  image's click list. The second capture is asked for at least that many points, so it
  returns at least as many; the mismatch warning (the truncation branch) appears exactly when
  it returned strictly more, and the second list is then cut to the first list's length.
\<close>

theorem main_points_length_first:
  assumes "fst (main_points op w) = Inr ()"
  shows "\<exists>p1 p2. ginput (- 1) (session1 op) = Inr p1 \<and> ginput (- 1) (session2 op) = Inr p2 \<and>
     length p1 \<le> length p2 \<and>
     files (snd (main_points op w)) points_output_file =
       Some (NpzFile [(''image1points'', p1), (''image2points'', take (length p1) p2)]) \<and>
     length (take (length p1) p2) = length p1 \<and>
     ((\<exists>a b c. Print (MismatchWarning a b c) \<in> set (emitted w (snd (main_points op w)))) =
      (length p1 < length p2))"
proof -
  from main_points_InrD [OF assms] obtain l1 l2 p1 p2 where
    h: "files w img1_path = Some ImageFile" "files w img2_path = Some ImageFile"
       "start1 op = Line l1" "start2 op = Line l2"
       "ginput (- 1) (session1 op) = Inr p1" "ginput (- 1) (session2 op) = Inr p2"
       "4 \<le> length p1" "length p1 \<le> length p2"
    by blast
  note run = main_points_ok [OF h]
  have "files (snd (main_points op w)) points_output_file =
       Some (NpzFile [(''image1points'', p1), (''image2points'', take (length p1) p2)])"
    by (simp add: run)
  moreover have "(\<exists>a b c. Print (MismatchWarning a b c) \<in> set (emitted w (snd (main_points op w)))) =
      (length p1 < length p2)"
    using h(8) by (auto simp: run emitted_def points_run_trace_def)
  moreover have "length (take (length p1) p2) = length p1" using h(8) by simp
  ultimately show ?thesis using h by blast
qed

theorem main_points_length_first_witness:
  "fst (main_points four_then_five two_images) = Inr () \<and>
   files (snd (main_points four_then_five two_images)) points_output_file =
     Some (NpzFile [(''image1points'', [(1, 1), (2, 1), (2, 2), (1, 2)]),
                    (''image2points'', [(1, 1), (2, 1), (2, 2), (1, 2)])])"
proof -
  have ok: "fst (main_points four_then_five two_images) = Inr ()" by (rule four_then_five_ok)
  from main_points_length_first [OF ok] obtain p1 p2 where
    g: "ginput (- 1) (session1 four_then_five) = Inr p1"
       "ginput (- 1) (session2 four_then_five) = Inr p2"
    and f: "files (snd (main_points four_then_five two_images)) points_output_file =
       Some (NpzFile [(''image1points'', p1), (''image2points'', take (length p1) p2)])"
    by blast
  from g have "p1 = [(1, 1), (2, 1), (2, 2), (1, 2)]" "p2 = [(1, 1), (2, 1), (2, 2), (1, 2), (3, 3)]"
    by (simp_all add: four_then_five_def ginput_four_free ginput_five_free)
  with f ok show ?thesis by simp
qed

text \<open>
  C2, as stated, fails: when the second image yields fewer points than the first (five
  clicks, then four), the second capture raises the insufficient-input error, the run fails
  and no archive is written.
\<close>

theorem fewer_points_on_second_image_fails:
  "ginput (- 1) (session1 five_then_four) = Inr [(1, 1), (2, 1), (2, 2), (1, 2), (3, 3)] \<and>
   ginput (- 1) (session2 five_then_four) = Inr [(1, 1), (2, 1), (2, 2), (1, 2)] \<and>
   fst (main_points five_then_four two_images) = Inl (ValueError 5 4) \<and>
   files (snd (main_points five_then_four two_images)) points_output_file = None"
  by (simp add: five_then_four_run two_images_files)
     (simp add: five_then_four_def ginput_five_free ginput_four_free)

text \<open>
  C2, amended. When both images are readable, the operator answers both prompts and finishes
  both click sessions, the first image has at least four points and the second image has
  more points than the first, the run succeeds: both lists are cut to the common shorter
  length (the first list's), the warning is printed, and the stored arrays are equal-length
  prefixes of the clicked lists.
\<close>

theorem more_points_on_second_image_truncated:
  assumes "files w img1_path = Some ImageFile" and "files w img2_path = Some ImageFile"
    and "start1 op = Line l1" and "start2 op = Line l2"
    and "ginput (- 1) (session1 op) = Inr p1" and "ginput (- 1) (session2 op) = Inr p2"
    and "4 \<le> length p1" and "length p1 < length p2"
  shows "fst (main_points op w) = Inr () \<and>
     files (snd (main_points op w)) =
       (files w)(points_output_file \<mapsto>
          NpzFile [(''image1points'', take (min (length p1) (length p2)) p1),
                   (''image2points'', take (min (length p1) (length p2)) p2)]) \<and>
     length (take (min (length p1) (length p2)) p1) =
       length (take (min (length p1) (length p2)) p2) \<and>
     prefix (take (min (length p1) (length p2)) p1) p1 \<and>
     prefix (take (min (length p1) (length p2)) p2) p2 \<and>
     Print (MismatchWarning (length p1) (length p2) (min (length p1) (length p2)))
       \<in> set (emitted w (snd (main_points op w)))"
proof -
  from assms(8) have le: "length p1 \<le> length p2" by simp
  note run = main_points_ok [OF assms(1-7) le]
  from assms(8) have m: "min (length p1) (length p2) = length p1" by simp
  show ?thesis using assms(8)
    by (simp add: run m emitted_def points_run_trace_def take_is_prefix)
qed

theorem more_points_on_second_image_truncated_witness:
  "fst (main_points four_then_five two_images) = Inr () \<and>
   files (snd (main_points four_then_five two_images)) =
     (files two_images)(points_output_file \<mapsto>
        NpzFile [(''image1points'', [(1, 1), (2, 1), (2, 2), (1, 2)]),
                 (''image2points'', [(1, 1), (2, 1), (2, 2), (1, 2)])]) \<and>
   Print (MismatchWarning 4 5 4) \<in> set (emitted two_images (snd (main_points four_then_five two_images)))"
proof -
  have g1: "ginput (- 1) (session1 four_then_five) = Inr [(1, 1), (2, 1), (2, 2), (1, 2)]"
    by (simp add: four_then_five_def ginput_four_free)
  have g2: "ginput (- 1) (session2 four_then_five) = Inr [(1, 1), (2, 1), (2, 2), (1, 2), (3, 3)]"
    by (simp add: four_then_five_def ginput_five_free)
  have s1: "start1 four_then_five = Line []" and s2: "start2 four_then_five = Line []"
    by (simp_all add: four_then_five_def)
  have n: "4 \<le> length [(1::real, 1::real), (2, 1), (2, 2), (1, 2)]"
    "length [(1::real, 1::real), (2, 1), (2, 2), (1, 2)] <
     length [(1::real, 1::real), (2, 1), (2, 2), (1, 2), (3, 3)]"
    by simp_all
  from more_points_on_second_image_truncated
    [OF two_images_files(1) two_images_files(2) s1 s2 g1 g2 n]
  show ?thesis by (simp add: eval_nat_numeral)
qed

text \<open>
  C4. A successful run of correspondence mode changes the file system at one place only,
  the archive, which holds two arrays under the names \<open>image1points\<close> and \<open>image2points\<close>,
  both of shape \<open>(N, 2)\<close> with \<open>N \<ge> 4\<close>; the last things printed are the two arrays as
  literals.
\<close>

theorem main_points_archive:
  assumes "fst (main_points op w) = Inr ()"
  shows "\<exists>a b. files (snd (main_points op w)) =
       (files w)(points_output_file \<mapsto> NpzFile [(''image1points'', a), (''image2points'', b)]) \<and>
     4 \<le> length a \<and> np_shape a = [length a, 2] \<and> np_shape b = [length a, 2] \<and>
     (\<exists>before. trace (snd (main_points op w)) =
        before @ [Print (ArrayLiteral ''image1points'' a), Print (ArrayLiteral ''image2points'' b)])"
proof -
  from main_points_InrD [OF assms] obtain l1 l2 p1 p2 where
    h: "files w img1_path = Some ImageFile" "files w img2_path = Some ImageFile"
       "start1 op = Line l1" "start2 op = Line l2"
       "ginput (- 1) (session1 op) = Inr p1" "ginput (- 1) (session2 op) = Inr p2"
       "4 \<le> length p1" "length p1 \<le> length p2"
    by blast
  note run = main_points_ok [OF h]
  let ?b = "take (length p1) p2"
  have f: "files (snd (main_points op w)) =
       (files w)(points_output_file \<mapsto> NpzFile [(''image1points'', p1), (''image2points'', ?b)])"
    by (simp add: run)
  have sa: "np_shape p1 = [length p1, 2]" using h(7) by (auto simp: np_shape_def)
  have sb: "np_shape ?b = [length p1, 2]" using h(7,8) by (auto simp: np_shape_def)
  have "\<exists>before. trace (snd (main_points op w)) =
        before @ [Print (ArrayLiteral ''image1points'' p1), Print (ArrayLiteral ''image2points'' ?b)]"
    by (simp add: run points_run_trace_def)
  with f sa sb h(7) show ?thesis by blast
qed

theorem main_points_archive_witness:
  "fst (main_points four_then_five two_images) = Inr () \<and>
   (\<exists>a b. files (snd (main_points four_then_five two_images)) =
       (files two_images)(points_output_file \<mapsto>
          NpzFile [(''image1points'', a), (''image2points'', b)]) \<and>
     4 \<le> length a \<and> np_shape a = [length a, 2] \<and> np_shape b = [length a, 2] \<and>
     (\<exists>before. trace (snd (main_points four_then_five two_images)) =
        before @ [Print (ArrayLiteral ''image1points'' a), Print (ArrayLiteral ''image2points'' b)]))"
  using four_then_five_ok main_points_archive [OF four_then_five_ok] by (rule conjI)

text \<open>
  C9 fails on the code: \<open>click_points_on_image\<close> raises the insufficient-input error before
  it closes the figure. With two clicks where four are required the capture fails and the
  figure it opened is still open.
\<close>

theorem insufficient_input_leaves_window_open:
  "fst (click_points_on_image img1_path Image3Title 4 two_clicks two_images) =
     Inl (ValueError 4 2) \<and>
   windows two_images = [] \<and>
   windows (snd (click_points_on_image img1_path Image3Title 4 two_clicks two_images)) = [1]"
proof -
  have "click_points_on_image img1_path Image3Title 4 two_clicks two_images =
    (Inl (ValueError 4 (length [(1::real, 1::real), (2, 1)])),
     two_images\<lparr>windows := windows two_images @ [next_num (windows two_images)],
       trace := trace two_images @ [Show (next_num (windows two_images)) img1_path,
         Print (PointsInstructions Image3Title 4)]\<rparr>)"
    by (rule click_points_on_image_short) (simp_all add: two_images_files ginput_two_free)
  then show ?thesis by (simp add: two_images_def next_num_def eval_nat_numeral)
qed

subsection \<open>Corner mode\<close>

lemma lower_char_y: "lower_char c = CHR ''y'' \<longleftrightarrow> c = CHR ''y'' \<or> c = CHR ''Y''"
  by (simp add: lower_char_def)

lemma str_lower_y: "str_lower r = ''y'' \<longleftrightarrow> r = ''y'' \<or> r = ''Y''"
  by (cases r) (auto simp: str_lower_def lower_char_y)

lemma six_paintings_files:
  "p \<in> set image_files \<Longrightarrow> files six_paintings p = Some ImageFile"
  "files six_paintings corners_output_file = None"
  by (simp_all add: six_paintings_def image_files_def emdash_def corners_output_file_def)

lemma six_paintings_saved_files:
  "p \<in> set image_files \<Longrightarrow> files six_paintings_saved p = Some ImageFile"
  "files six_paintings_saved corners_output_file = Some (NpzFile earlier_archive)"
  by (simp_all add: six_paintings_saved_def image_files_def emdash_def corners_output_file_def)

text \<open>
  C1 fails on the code in corner mode: \<open>click_corners\<close> has no check of the number of
  points. When the operator presses Enter after two clicks, the capture succeeds and hands
  the two points to the caller.
\<close>

theorem click_corners_returns_partial_list:
  "fst (click_corners (image_files ! 0) (CornersTitle 1 (image_files ! 0)) two_clicks six_paintings)
     = Inr [(1, 1), (2, 1)]"
proof -
  have "files six_paintings (image_files ! 0) = Some ImageFile"
    by (rule six_paintings_files) (simp add: image_files_def)
  from click_corners_ok [OF this ginput_two_4] show ?thesis by simp
qed

text \<open>
  Correspondence mode does check the count: with too few points the capture raises and hands
  no list to the caller. Corner mode never raises that error.
\<close>

lemma click_points_on_image_insufficient:
  assumes "files w p = Some ImageFile" and "ginput (- 1) s = Inr pts" and "length pts < m"
  shows "fst (click_points_on_image p t m s w) = Inl (ValueError m (length pts))"
  by (simp add: click_points_on_image_short [OF assms])

lemma click_corners_never_insufficient:
  "fst (click_corners p t s w) \<noteq> Inl (ValueError a b)"
  by (auto simp: click_corners_def os_path_exists_def imread_def subplots_imshow_def
      console_print_def plt_close_def Let_def ginput_def
      split: option.splits fs_entry.splits sum.splits prod.splits bool.splits ending.splits)

lemma hasty_run_files:
  "files (snd (main_corners hasty six_paintings)) corners_output_file =
     Some (NpzFile
       [(''corners_0'', [(1, 1), (2, 1)]),
        (''corners_1'', [(1, 1), (2, 1), (2, 2), (1, 2)]),
        (''corners_2'', [(1, 1), (2, 1), (2, 2), (1, 2)]),
        (''corners_3'', [(1, 1), (2, 1), (2, 2), (1, 2)]),
        (''corners_4'', [(1, 1), (2, 1), (2, 2), (1, 2)]),
        (''corners_5'', [(1, 1), (2, 1), (2, 2), (1, 2)])])"
  by (simp add: main_corners_def main_corners_with_def confirm_overwrite_def hasty_def
      six_paintings_def py_input_def console_print_def click_corners_def os_path_exists_def
      imread_def subplots_imshow_def next_num_def ginput_def plt_close_def image_files_def
      emdash_def enumerate_eq_zip corners_output_file_def paintings_wh_def four_clicks_def
      two_clicks_def save_corners_def savez_def upt_rec labels_def loop_body_def)

lemma hasty_run_ok:
  "fst (main_corners hasty six_paintings) = Inr ()"
  by (simp add: main_corners_def main_corners_with_def confirm_overwrite_def hasty_def
      six_paintings_def py_input_def console_print_def click_corners_def os_path_exists_def
      imread_def subplots_imshow_def next_num_def ginput_def plt_close_def image_files_def
      emdash_def enumerate_eq_zip corners_output_file_def paintings_wh_def four_clicks_def
      two_clicks_def save_corners_def savez_def upt_rec labels_def loop_body_def)

subsection \<open>The trace only grows\<close>

lemma py_input_trace: "prefix (trace w) (trace (snd (py_input p r w)))"
  by (simp add: py_input_def Let_def split: reply.splits)

lemma click_corners_trace: "prefix (trace w) (trace (snd (click_corners p t s w)))"
  by (simp add: click_corners_def os_path_exists_def imread_def subplots_imshow_def
      console_print_def plt_close_def Let_def split: option.splits fs_entry.splits sum.splits)

lemma loop_body_trace: "prefix (trace w) (trace (snd (loop_body dims op i f cp w)))"
proof -
  have a: "\<And>p r w x w'. py_input p r w = (x, w') \<Longrightarrow> prefix (trace w) (trace w')"
    by (metis py_input_trace snd_conv)
  have b: "\<And>p t s w x w'. click_corners p t s w = (x, w') \<Longrightarrow> prefix (trace w) (trace w')"
    by (metis click_corners_trace snd_conv)
  show ?thesis
    by (auto simp: loop_body_def Let_def console_print_def
        split: prod.splits sum.splits dest!: a b)
       (meson prefix_order.trans append_prefixD)+
qed

lemma collect_trace: "prefix (trace w) (trace (snd (collect dims op xs cp w)))"
proof (induction xs arbitrary: cp w)
  case Nil
  then show ?case by simp
next
  case (Cons x xs)
  obtain i f where x: "x = (i, f)" by (cases x)
  obtain r w' where b: "loop_body dims op i f cp w = (r, w')"
    by (cases "loop_body dims op i f cp w")
  have pw: "prefix (trace w) (trace w')" using loop_body_trace [of w dims op i f cp] b by simp
  show ?case
  proof (cases r)
    case (Inl e)
    with x b pw show ?thesis by simp
  next
    case (Inr cp')
    have "prefix (trace w') (trace (snd (collect dims op xs cp' w')))" by (rule Cons.IH)
    with pw have "prefix (trace w) (trace (snd (collect dims op xs cp' w')))"
      by (rule prefix_order.trans)
    with x b Inr show ?thesis by simp
  qed
qed

lemma save_corners_trace: "prefix (trace w) (trace (snd (save_corners cp w)))"
  by (simp add: save_corners_def console_print_def savez_def Let_def split: option.splits)

lemma save_corners_files:
  "fst (save_corners cp w) \<noteq> Inr () \<Longrightarrow> files (snd (save_corners cp w)) = files w"
  by (simp add: save_corners_def console_print_def savez_def Let_def split: option.splits)

subsection \<open>Successful iterations\<close>

lemma loop_body_InrD:
  assumes "loop_body dims op i f cp w = (Inr cp', w')"
  shows "files w f = Some ImageFile \<and> i < length dims \<and>
         (\<exists>c. ginput 4 (corner_session op i) = Inr c \<and> cp' = cp(i \<mapsto> c))"
proof -
  have a: "\<And>p r w l w'. py_input p r w = (Inr l, w') \<Longrightarrow> files w' = files w"
    using py_input_InrD by blast
  show ?thesis using assms
    by (auto simp: loop_body_def Let_def console_print_def
        split: prod.splits sum.splits if_splits dest!: a click_corners_InrD)
qed

lemma collect_InrD:
  assumes "collect dims op xs cp w = (Inr cp', w')"
  shows "\<forall>x \<in> set xs. files w (snd x) = Some ImageFile"
  using assms
proof (induction xs arbitrary: cp w)
  case Nil
  then show ?case by simp
next
  case (Cons x xs)
  obtain i f where x: "x = (i, f)" by (cases x)
  obtain r w1 where b: "loop_body dims op i f cp w = (r, w1)"
    by (cases "loop_body dims op i f cp w")
  have fw: "files w1 = files w" using loop_body_files [of dims op i f cp w] b by simp
  show ?case
  proof (cases r)
    case (Inl e)
    with x b Cons.prems show ?thesis by simp
  next
    case (Inr cp1)
    with x b Cons.prems have "collect dims op xs cp1 w1 = (Inr cp', w')" by simp
    from Cons.IH [OF this] fw have "\<forall>x \<in> set xs. files w (snd x) = Some ImageFile" by simp
    moreover from b Inr have "files w f = Some ImageFile" using loop_body_InrD by blast
    ultimately show ?thesis using x by simp
  qed
qed

subsection \<open>Runs that differ in the table of dimensions\<close>

lemma alike_refl: "alike w w"
  by (simp add: alike_def)

lemma py_input_alike:
  assumes "alike w1 w2"
  shows "fst (py_input p r w1) = fst (py_input p r w2) \<and>
         alike (snd (py_input p r w1)) (snd (py_input p r w2))"
  using assms by (simp add: py_input_def alike_def Let_def split: reply.splits)

lemma click_corners_alike:
  assumes "alike w1 w2"
  shows "fst (click_corners p t s w1) = fst (click_corners p t s w2) \<and>
         alike (snd (click_corners p t s w1)) (snd (click_corners p t s w2))"
  using assms
  by (simp add: click_corners_def os_path_exists_def imread_def subplots_imshow_def
      console_print_def plt_close_def Let_def alike_def
      split: option.splits fs_entry.splits sum.splits)

lemma loop_body_alike:
  assumes "alike w1 w2" and "i < length d1" and "i < length d2"
  shows "fst (loop_body d1 op i f cp w1) = fst (loop_body d2 op i f cp w2) \<and>
         alike (snd (loop_body d1 op i f cp w1)) (snd (loop_body d2 op i f cp w2))"
proof -
  obtain a1 b1 where e1: "d1 ! i = (a1, b1)" by (cases "d1 ! i")
  obtain a2 b2 where e2: "d2 ! i = (a2, b2)" by (cases "d2 ! i")
  let ?u1 = "console_print (ImageHeader (i + 1) f a1 b1) w1"
  let ?u2 = "console_print (ImageHeader (i + 1) f a2 b2) w2"
  have u: "alike ?u1 ?u2" using assms(1) by (simp add: alike_def console_print_def)
  note i = py_input_alike [OF u, of "StartPrompt f" "start_reply op i"]
  obtain r v1 where p1: "py_input (StartPrompt f) (start_reply op i) ?u1 = (r, v1)"
    by (cases "py_input (StartPrompt f) (start_reply op i) ?u1")
  obtain r' v2 where p2: "py_input (StartPrompt f) (start_reply op i) ?u2 = (r', v2)"
    by (cases "py_input (StartPrompt f) (start_reply op i) ?u2")
  from i p1 p2 have rr: "r' = r" and v: "alike v1 v2" by simp_all
  show ?thesis
  proof (cases r)
    case (Inl e)
    with assms(2,3) e1 e2 p1 p2 rr v show ?thesis by (simp add: loop_body_def)
  next
    case (Inr l)
    note c = click_corners_alike [OF v, of f "CornersTitle (i + 1) f" "corner_session op i"]
    obtain q x1 where c1: "click_corners f (CornersTitle (i + 1) f) (corner_session op i) v1 = (q, x1)"
      by (cases "click_corners f (CornersTitle (i + 1) f) (corner_session op i) v1")
    obtain q' x2 where c2: "click_corners f (CornersTitle (i + 1) f) (corner_session op i) v2 = (q', x2)"
      by (cases "click_corners f (CornersTitle (i + 1) f) (corner_session op i) v2")
    from c c1 c2 have qq: "q' = q" and x: "alike x1 x2" by simp_all
    show ?thesis
    proof (cases q)
      case (Inl e)
      with assms(2,3) e1 e2 p1 p2 rr Inr c1 c2 qq x show ?thesis by (simp add: loop_body_def)
    next
      case (Inr corners)
      have "alike (console_print (CollectedPoints (i + 1) (zip labels corners)) x1)
                  (console_print (CollectedPoints (i + 1) (zip labels corners)) x2)"
        using x by (simp add: alike_def console_print_def)
      with assms(2,3) e1 e2 p1 p2 rr \<open>r = Inr l\<close> c1 c2 qq Inr show ?thesis
        by (simp add: loop_body_def)
    qed
  qed
qed

lemma collect_alike:
  assumes "alike w1 w2" and "\<forall>x \<in> set xs. fst x < length d1 \<and> fst x < length d2"
  shows "fst (collect d1 op xs cp w1) = fst (collect d2 op xs cp w2) \<and>
         alike (snd (collect d1 op xs cp w1)) (snd (collect d2 op xs cp w2))"
  using assms
proof (induction xs arbitrary: cp w1 w2)
  case Nil
  then show ?case by simp
next
  case (Cons x xs)
  obtain i f where x: "x = (i, f)" by (cases x)
  from Cons.prems(2) x have i: "i < length d1" "i < length d2" by simp_all
  note b = loop_body_alike [OF Cons.prems(1) i, of op f cp]
  obtain r v1 where b1: "loop_body d1 op i f cp w1 = (r, v1)" by (cases "loop_body d1 op i f cp w1")
  obtain r' v2 where b2: "loop_body d2 op i f cp w2 = (r', v2)" by (cases "loop_body d2 op i f cp w2")
  from b b1 b2 have rr: "r' = r" and v: "alike v1 v2" by simp_all
  show ?case
  proof (cases r)
    case (Inl e)
    with x b1 b2 rr v show ?thesis by simp
  next
    case (Inr cp')
    from Cons.prems(2) have "\<forall>x \<in> set xs. fst x < length d1 \<and> fst x < length d2" by simp
    from Cons.IH [OF v this, of cp'] x b1 b2 rr Inr show ?thesis by simp
  qed
qed

lemma save_corners_alike:
  assumes "alike w1 w2"
  shows "fst (save_corners cp w1) = fst (save_corners cp w2) \<and>
         alike (snd (save_corners cp w1)) (snd (save_corners cp w2))"
  using assms
  by (simp add: save_corners_def console_print_def savez_def Let_def alike_def split: option.splits)

lemma confirm_overwrite_alike:
  assumes "alike w1 w2"
  shows "fst (confirm_overwrite op w1) = fst (confirm_overwrite op w2) \<and>
         alike (snd (confirm_overwrite op w1)) (snd (confirm_overwrite op w2))"
  using assms
  by (simp add: confirm_overwrite_def os_path_exists_def py_input_def console_print_def Let_def
      alike_def split: reply.splits)

lemma enumerate_image_files_index:
  "\<forall>x \<in> set (enumerate 0 image_files). fst x < length image_files"
  by (simp add: in_set_enumerate_eq)

lemma main_corners_with_alike:
  assumes "length image_files \<le> length d1" and "length image_files \<le> length d2"
  shows "fst (main_corners_with d1 op w) = fst (main_corners_with d2 op w) \<and>
         alike (snd (main_corners_with d1 op w)) (snd (main_corners_with d2 op w))"
proof -
  let ?w1 = "console_print CornersIntro w"
  obtain r w2 where c: "confirm_overwrite op ?w1 = (r, w2)" by (cases "confirm_overwrite op ?w1")
  have idx: "\<forall>x \<in> set (enumerate 0 image_files). fst x < length d1 \<and> fst x < length d2"
    using enumerate_image_files_index assms by fastforce
  note k = collect_alike [OF alike_refl idx, of op Map.empty w2]
  obtain q1 v1 where k1: "collect d1 op (enumerate 0 image_files) Map.empty w2 = (q1, v1)"
    by (cases "collect d1 op (enumerate 0 image_files) Map.empty w2")
  obtain q2 v2 where k2: "collect d2 op (enumerate 0 image_files) Map.empty w2 = (q2, v2)"
    by (cases "collect d2 op (enumerate 0 image_files) Map.empty w2")
  from k k1 k2 have qq: "q2 = q1" and v: "alike v1 v2" by simp_all
  show ?thesis
  proof (cases r)
    case (Inl e)
    with c show ?thesis by (simp add: main_corners_with_def alike_refl)
  next
    case (Inr go)
    show ?thesis
    proof (cases go)
      case False
      with c Inr show ?thesis by (simp add: main_corners_with_def alike_refl)
    next
      case True
      show ?thesis
      proof (cases q1)
        case (Inl e)
        with c \<open>r = Inr go\<close> True k1 k2 qq v show ?thesis by (simp add: main_corners_with_def)
      next
        case (Inr cp)
        with c \<open>r = Inr go\<close> True k1 k2 qq save_corners_alike [OF v, of cp] show ?thesis
          by (simp add: main_corners_with_def)
      qed
    qed
  qed
qed

text \<open>
  C7. The table of painting dimensions reaches the console and nothing else. Two corner-mode
  runs from the same world with the same operator, under any two tables that have a row for
  every image, collect the same corner points, end with the same outcome, the same files (so
  the same archive) and the same open figures, and their traces agree once the dimensions
  are blanked out of the image headers.
\<close>

theorem dimensions_only_reach_the_console:
  assumes "length image_files \<le> length d1" and "length image_files \<le> length d2"
  shows "fst (collect d1 op (enumerate 0 image_files) Map.empty w) =
           fst (collect d2 op (enumerate 0 image_files) Map.empty w) \<and>
         fst (main_corners_with d1 op w) = fst (main_corners_with d2 op w) \<and>
         files (snd (main_corners_with d1 op w)) = files (snd (main_corners_with d2 op w)) \<and>
         windows (snd (main_corners_with d1 op w)) = windows (snd (main_corners_with d2 op w)) \<and>
         map erase_dims (trace (snd (main_corners_with d1 op w))) =
           map erase_dims (trace (snd (main_corners_with d2 op w)))"
proof -
  have idx: "\<forall>x \<in> set (enumerate 0 image_files). fst x < length d1 \<and> fst x < length d2"
    using enumerate_image_files_index assms by fastforce
  from collect_alike [OF alike_refl idx, of op Map.empty w]
  have "fst (collect d1 op (enumerate 0 image_files) Map.empty w) =
           fst (collect d2 op (enumerate 0 image_files) Map.empty w)" by simp
  with main_corners_with_alike [OF assms, of op w] show ?thesis by (simp add: alike_def)
qed

theorem dimensions_only_reach_the_console_witness:
  "length image_files \<le> length paintings_wh \<and>
   length image_files \<le> length (replicate 6 (1::real, 1::real)) \<and>
   fst (main_corners hasty six_paintings) = Inr () \<and>
   fst (main_corners_with (replicate 6 (1, 1)) hasty six_paintings) = Inr () \<and>
   files (snd (main_corners_with (replicate 6 (1, 1)) hasty six_paintings)) =
     files (snd (main_corners hasty six_paintings))"
proof -
  have a: "length image_files \<le> length paintings_wh"
    by (simp add: image_files_def paintings_wh_def)
  have b: "length image_files \<le> length (replicate 6 (1::real, 1::real))"
    by (simp add: image_files_def)
  from dimensions_only_reach_the_console [OF a b, of hasty six_paintings] a b hasty_run_ok
  show ?thesis by (simp add: main_corners_def)
qed

subsection \<open>Missing images\<close>

lemma collect_then_save_trace:
  "prefix (trace w)
     (trace (snd (case collect dims op xs cp w of
                    (Inl e, w3) \<Rightarrow> (Inl e, w3)
                  | (Inr corner_points, w3) \<Rightarrow> save_corners corner_points w3)))"
proof -
  obtain r w3 where c: "collect dims op xs cp w = (r, w3)" by (cases "collect dims op xs cp w")
  have p: "prefix (trace w) (trace w3)" using collect_trace [of w dims op xs cp] c by simp
  show ?thesis
  proof (cases r)
    case (Inl e)
    with c p show ?thesis by simp
  next
    case (Inr cp')
    have "prefix (trace w3) (trace (snd (save_corners cp' w3)))" by (rule save_corners_trace)
    with p have "prefix (trace w) (trace (snd (save_corners cp' w3)))"
      by (rule prefix_order.trans)
    with c Inr show ?thesis by simp
  qed
qed

lemma collect_then_save_files:
  assumes "x \<in> set xs" and "files w (snd x) \<noteq> Some ImageFile"
  shows "files (snd (case collect dims op xs cp w of
                    (Inl e, w3) \<Rightarrow> (Inl e, w3)
                  | (Inr corner_points, w3) \<Rightarrow> save_corners corner_points w3)) = files w"
proof -
  obtain r w3 where c: "collect dims op xs cp w = (r, w3)" by (cases "collect dims op xs cp w")
  have f: "files w3 = files w" using collect_files [of dims op xs cp w] c by simp
  show ?thesis
  proof (cases r)
    case (Inl e)
    with c f show ?thesis by simp
  next
    case (Inr cp')
    with c collect_InrD assms show ?thesis by blast
  qed
qed

lemma confirm_overwrite_files: "files (snd (confirm_overwrite op w)) = files w"
  by (simp add: confirm_overwrite_def py_input_def console_print_def Let_def split: reply.splits)

lemma main_corners_missing_image:
  assumes "q \<in> set image_files" and "files w q = None"
  shows "files (snd (main_corners_with dims op w)) = files w"
proof -
  let ?w1 = "console_print CornersIntro w"
  obtain r w2 where c: "confirm_overwrite op ?w1 = (r, w2)" by (cases "confirm_overwrite op ?w1")
  have f2: "files w2 = files w"
    using confirm_overwrite_files [of op ?w1] c by (simp add: console_print_def)
  from assms(1) obtain k where k: "k < length image_files" "image_files ! k = q"
    by (auto simp: in_set_conv_nth)
  then have m: "(k, q) \<in> set (enumerate 0 image_files)" by (simp add: in_set_enumerate_eq)
  have n: "files w2 (snd (k, q)) \<noteq> Some ImageFile" using assms(2) f2 by simp
  note cs = collect_then_save_files [OF m n, of dims op Map.empty]
  show ?thesis
  proof (cases r)
    case (Inl e)
    with c f2 show ?thesis by (simp add: main_corners_with_def)
  next
    case (Inr go)
    with c f2 cs show ?thesis by (cases go) (simp_all add: main_corners_with_def)
  qed
qed

lemma main_points_files:
  assumes "fst (main_points op w) \<noteq> Inr ()"
  shows "files (snd (main_points op w)) = files w"
proof -
  have a: "\<And>p r w x w'. py_input p r w = (x, w') \<Longrightarrow> files w' = files w"
    by (metis py_input_files snd_conv)
  have b: "\<And>p t m s w x w'. click_points_on_image p t m s w = (x, w') \<Longrightarrow> files w' = files w"
    by (metis click_points_on_image_files snd_conv)
  have r: "\<And>p1 p2 w. fst (reconcile_and_save p1 p2 w) = Inr ()"
    by (simp add: reconcile_and_save_def Let_def split: prod.splits)
  obtain res w' where m: "main_points op w = (res, w')" by (cases "main_points op w")
  with assms have "res \<noteq> Inr ()" by simp
  with m have "files w' = files w"
    by (auto simp: main_points_def Let_def console_print_def
        split: prod.splits sum.splits dest!: a b)
       (metis r fst_conv)+
  with m show ?thesis by simp
qed

text \<open>
  C5. A capture asked for a path that names no file raises the resource-not-found error at
  once and leaves the world exactly as it was: no figure is opened, nothing is printed,
  nothing is written; this holds for both capture functions. At the level of a run: when one
  of the six paintings is missing, a corner-mode run leaves every file as it was; when one of
  the two images is missing, a correspondence-mode run fails and leaves every file as it was.
\<close>

theorem missing_image_fails_before_display:
  assumes "files w p = None"
    and "q \<in> set image_files" and "files wc q = None"
    and "r = img1_path \<or> r = img2_path" and "files wp r = None"
  shows "click_corners p t s w = (Inl (FileNotFoundError p), w) \<and>
         click_points_on_image p t' m s' w = (Inl (FileNotFoundError p), w) \<and>
         files (snd (main_corners opc wc)) = files wc \<and>
         fst (main_points opp wp) \<noteq> Inr () \<and>
         files (snd (main_points opp wp)) = files wp"
proof -
  have 1: "click_corners p t s w = (Inl (FileNotFoundError p), w)"
    using assms(1) by (simp add: click_corners_def os_path_exists_def)
  have 2: "click_points_on_image p t' m s' w = (Inl (FileNotFoundError p), w)"
    using assms(1) by (simp add: click_points_on_image_def os_path_exists_def)
  have 3: "files (snd (main_corners opc wc)) = files wc"
    unfolding main_corners_def by (rule main_corners_missing_image [OF assms(2,3)])
  have 4: "fst (main_points opp wp) \<noteq> Inr ()"
    using main_points_InrD [of opp wp] assms(4,5) by auto
  from 1 2 3 4 main_points_files [OF 4] show ?thesis by simp
qed

theorem missing_image_fails_before_display_witness:
  "files six_paintings img1_path = None \<and>
   image_files ! 0 \<in> set image_files \<and> files two_images (image_files ! 0) = None \<and>
   files six_paintings img2_path = None \<and>
   click_corners img1_path (CornersTitle 1 img1_path) four_clicks six_paintings =
     (Inl (FileNotFoundError img1_path), six_paintings) \<and>
   click_points_on_image img1_path Image3Title 4 four_clicks six_paintings =
     (Inl (FileNotFoundError img1_path), six_paintings) \<and>
   files (snd (main_corners careful two_images)) = files two_images \<and>
   fst (main_points four_then_five six_paintings) \<noteq> Inr () \<and>
   files (snd (main_points four_then_five six_paintings)) = files six_paintings"
proof -
  have a: "files six_paintings img1_path = None"
    by (simp add: six_paintings_def img1_path_def image_files_def)
  have b: "image_files ! 0 \<in> set image_files" by (simp add: image_files_def)
  have c: "files two_images (image_files ! 0) = None"
    by (simp add: two_images_def image_files_def)
  have d: "img2_path = img1_path \<or> img2_path = img2_path" by simp
  have e: "files six_paintings img2_path = None"
    by (simp add: six_paintings_def img2_path_def image_files_def)
  from missing_image_fails_before_display [OF a b c d e] a b c e show ?thesis by blast
qed

subsection \<open>The overwrite question, the entry points, and a hasty operator\<close>

text \<open>
  C6. When the archive of an earlier run exists, the first things a corner-mode run does are
  the opening banner and the overwrite question. When the operator's answer, lowered, is not
  \<open>y\<close>, the run returns at once: apart from the three console events the world is as it was,
  with the same files and no figure opened.
\<close>

theorem decline_overwrite_changes_nothing:
  assumes "files w corners_output_file = Some f"
  shows "prefix (trace w @ [Print CornersIntro, Ask OverwritePrompt])
           (trace (snd (main_corners op w))) \<and>
         (overwrite_reply op = Line r \<longrightarrow> str_lower r \<noteq> ''y'' \<longrightarrow>
            main_corners op w =
              (Inr (), w\<lparr>trace := trace w @
                 [Print CornersIntro, Ask OverwritePrompt, Print ExitingWithoutOverwriting]\<rparr>))"
proof -
  let ?w2 = "w\<lparr>trace := trace w @ [Print CornersIntro, Ask OverwritePrompt]\<rparr>"
  have ex: "os_path_exists (console_print CornersIntro w) corners_output_file"
    using assms by (simp add: os_path_exists_def console_print_def)
  have t2: "trace ?w2 = trace w @ [Print CornersIntro, Ask OverwritePrompt]" by simp
  have first: "prefix (trace w @ [Print CornersIntro, Ask OverwritePrompt])
           (trace (snd (main_corners op w)))"
  proof (cases "overwrite_reply op")
    case (Line l)
    show ?thesis
    proof (cases "str_lower l \<noteq> ''y''")
      case True
      with ex Line show ?thesis
        by (simp add: main_corners_def main_corners_with_def confirm_overwrite_def
            py_input_def console_print_def Let_def)
    next
      case False
      with ex Line have "main_corners op w =
         (case collect paintings_wh op (enumerate 0 image_files) Map.empty ?w2 of
            (Inl e, w3) \<Rightarrow> (Inl e, w3)
          | (Inr corner_points, w3) \<Rightarrow> save_corners corner_points w3)"
        by (simp add: main_corners_def main_corners_with_def confirm_overwrite_def
            py_input_def console_print_def Let_def)
      with collect_then_save_trace [of ?w2 paintings_wh op "enumerate 0 image_files" Map.empty]
      show ?thesis by (simp only: t2)
    qed
  next
    case CtrlC
    with ex show ?thesis
      by (simp add: main_corners_def main_corners_with_def confirm_overwrite_def
          py_input_def console_print_def Let_def)
  next
    case EndOfInput
    with ex show ?thesis
      by (simp add: main_corners_def main_corners_with_def confirm_overwrite_def
          py_input_def console_print_def Let_def)
  qed
  have second: "overwrite_reply op = Line r \<longrightarrow> str_lower r \<noteq> ''y'' \<longrightarrow>
            main_corners op w =
              (Inr (), w\<lparr>trace := trace w @
                 [Print CornersIntro, Ask OverwritePrompt, Print ExitingWithoutOverwriting]\<rparr>)"
    using ex
    by (simp add: main_corners_def main_corners_with_def confirm_overwrite_def
        py_input_def console_print_def Let_def)
  from first second show ?thesis by (rule conjI)
qed

theorem decline_overwrite_changes_nothing_witness:
  "files six_paintings_saved corners_output_file = Some (NpzFile earlier_archive) \<and>
   overwrite_reply declining = Line ''n'' \<and> str_lower ''n'' \<noteq> ''y'' \<and>
   main_corners declining six_paintings_saved =
     (Inr (), six_paintings_saved\<lparr>trace := trace six_paintings_saved @
        [Print CornersIntro, Ask OverwritePrompt, Print ExitingWithoutOverwriting]\<rparr>) \<and>
   files (snd (main_corners declining six_paintings_saved)) corners_output_file =
     Some (NpzFile earlier_archive) \<and>
   windows (snd (main_corners declining six_paintings_saved)) = []"
proof -
  have a: "files six_paintings_saved corners_output_file = Some (NpzFile earlier_archive)"
    by (rule six_paintings_saved_files)
  have b: "overwrite_reply declining = Line ''n''" by (simp add: declining_def)
  have c: "str_lower ''n'' \<noteq> ''y''" by (simp add: str_lower_y)
  from decline_overwrite_changes_nothing [OF a, of declining "''n''"] b c
  have run: "main_corners declining six_paintings_saved =
     (Inr (), six_paintings_saved\<lparr>trace := trace six_paintings_saved @
        [Print CornersIntro, Ask OverwritePrompt, Print ExitingWithoutOverwriting]\<rparr>)"
    by blast
  have "windows six_paintings_saved = []" by (simp add: six_paintings_saved_def)
  with a b c run show ?thesis by simp
qed

lemma main_points_trace: "prefix (trace w) (trace (snd (main_points op w)))"
proof -
  have a: "\<And>p r w x w'. py_input p r w = (x, w') \<Longrightarrow> \<exists>zs. trace w' = trace w @ zs"
    by (auto simp: py_input_def Let_def split: reply.splits)
  have b: "\<And>p t m s w x w'. click_points_on_image p t m s w = (x, w') \<Longrightarrow>
      \<exists>zs. trace w' = trace w @ zs"
    by (auto simp: click_points_on_image_def os_path_exists_def imread_def subplots_imshow_def
        console_print_def plt_close_def Let_def
        split: option.splits fs_entry.splits sum.splits if_splits)
  have c: "\<And>p1 p2 w. \<exists>zs. trace (snd (reconcile_and_save p1 p2 w)) = trace w @ zs"
    by (simp add: reconcile_and_save_def console_print_def savez_def Let_def)
  obtain res w' where m: "main_points op w = (res, w')" by (cases "main_points op w")
  then have "\<exists>zs. trace w' = trace w @ zs"
    by (auto simp: main_points_def Let_def console_print_def
        split: prod.splits sum.splits dest!: a b)
       (metis c snd_conv append.assoc)+
  with m show ?thesis by (auto simp: prefix_def)
qed

lemma confirm_overwrite_trace: "prefix (trace w) (trace (snd (confirm_overwrite op w)))"
  by (simp add: confirm_overwrite_def py_input_def console_print_def Let_def split: reply.splits)

lemma main_corners_trace: "prefix (trace w) (trace (snd (main_corners op w)))"
proof -
  let ?w1 = "console_print CornersIntro w"
  have p1: "prefix (trace w) (trace ?w1)" by (simp add: console_print_def)
  obtain r w2 where c: "confirm_overwrite op ?w1 = (r, w2)" by (cases "confirm_overwrite op ?w1")
  have "prefix (trace ?w1) (trace w2)" using confirm_overwrite_trace [of ?w1 op] c by simp
  with p1 have p2: "prefix (trace w) (trace w2)" by (rule prefix_order.trans)
  note cs = collect_then_save_trace [of w2 paintings_wh op "enumerate 0 image_files" Map.empty]
  show ?thesis
  proof (cases r)
    case (Inl e)
    with c p2 show ?thesis by (simp add: main_corners_def main_corners_with_def)
  next
    case (Inr go)
    show ?thesis
    proof (cases go)
      case False
      with c Inr p2 show ?thesis by (simp add: main_corners_def main_corners_with_def)
    next
      case True
      from p2 cs have "prefix (trace w)
         (trace (snd (case collect paintings_wh op (enumerate 0 image_files) Map.empty w2 of
                    (Inl e, w3) \<Rightarrow> (Inl e, w3)
                  | (Inr corner_points, w3) \<Rightarrow> save_corners corner_points w3)))"
        by (rule prefix_order.trans)
      with c Inr True show ?thesis by (simp add: main_corners_def main_corners_with_def)
    qed
  qed
qed

lemma main_corners_files:
  assumes "fst (main_corners op w) \<noteq> Inr ()"
  shows "files (snd (main_corners op w)) = files w"
proof -
  let ?w1 = "console_print CornersIntro w"
  obtain r w2 where c: "confirm_overwrite op ?w1 = (r, w2)" by (cases "confirm_overwrite op ?w1")
  have f2: "files w2 = files w"
    using confirm_overwrite_files [of op ?w1] c by (simp add: console_print_def)
  obtain q w3 where k: "collect paintings_wh op (enumerate 0 image_files) Map.empty w2 = (q, w3)"
    by (cases "collect paintings_wh op (enumerate 0 image_files) Map.empty w2")
  have f3: "files w3 = files w"
    using collect_files [of paintings_wh op "enumerate 0 image_files" Map.empty w2] k f2 by simp
  show ?thesis
  proof (cases r)
    case (Inl e)
    with c f2 show ?thesis by (simp add: main_corners_def main_corners_with_def)
  next
    case (Inr go)
    show ?thesis
    proof (cases go)
      case False
      with c Inr f2 show ?thesis by (simp add: main_corners_def main_corners_with_def)
    next
      case True
      show ?thesis
      proof (cases q)
        case (Inl e)
        with c \<open>r = Inr go\<close> True k f3 show ?thesis
          by (simp add: main_corners_def main_corners_with_def)
      next
        case (Inr cp)
        with c \<open>r = Inr go\<close> True k have m: "main_corners op w = save_corners cp w3"
          by (simp add: main_corners_def main_corners_with_def)
        with assms have "fst (save_corners cp w3) \<noteq> Inr ()" by simp
        from save_corners_files [OF this] m f3 show ?thesis by simp
      qed
    qed
  qed
qed

text \<open>
  C8. In both scripts, when \<open>main\<close> is cut by the operator's interrupt the process ends
  cleanly and the world it leaves is the world \<open>main\<close> left with one more event at the end
  of the trace, the printed notice; when \<open>main\<close> raises anything else the process ends with
  that error, and the one event added is the printed error. In both cases what \<open>main\<close> had
  put on the trace is kept, and no file has changed since the start of the run.
\<close>

theorem entry_points_catch_and_reraise:
  "(fst (main_points opa wa) = Inl KeyboardInterrupt \<longrightarrow>
      points_script opa wa =
        (Clean, (snd (main_points opa wa))
                  \<lparr>trace := trace (snd (main_points opa wa)) @ [Print Interrupted]\<rparr>) \<and>
      prefix (trace wa) (trace (snd (main_points opa wa))) \<and>
      files (snd (points_script opa wa)) = files wa) \<and>
   (fst (main_points opb wb) = Inl eb \<and> eb \<noteq> KeyboardInterrupt \<longrightarrow>
      points_script opb wb =
        (Failure eb, (snd (main_points opb wb))
                  \<lparr>trace := trace (snd (main_points opb wb)) @ [Print (ErrorMsg eb)]\<rparr>) \<and>
      prefix (trace wb) (trace (snd (main_points opb wb))) \<and>
      files (snd (points_script opb wb)) = files wb) \<and>
   (fst (main_corners opc wc) = Inl KeyboardInterrupt \<longrightarrow>
      corners_script opc wc =
        (Clean, (snd (main_corners opc wc))
                  \<lparr>trace := trace (snd (main_corners opc wc)) @ [Print Interrupted]\<rparr>) \<and>
      prefix (trace wc) (trace (snd (main_corners opc wc))) \<and>
      files (snd (corners_script opc wc)) = files wc) \<and>
   (fst (main_corners opd wd) = Inl ed \<and> ed \<noteq> KeyboardInterrupt \<longrightarrow>
      corners_script opd wd =
        (Failure ed, (snd (main_corners opd wd))
                  \<lparr>trace := trace (snd (main_corners opd wd)) @ [Print (ErrorMsg ed)]\<rparr>) \<and>
      prefix (trace wd) (trace (snd (main_corners opd wd))) \<and>
      files (snd (corners_script opd wd)) = files wd)"
proof -
  have 1: "fst (main_points opa wa) = Inl KeyboardInterrupt \<longrightarrow>
      points_script opa wa =
        (Clean, (snd (main_points opa wa))
                  \<lparr>trace := trace (snd (main_points opa wa)) @ [Print Interrupted]\<rparr>) \<and>
      prefix (trace wa) (trace (snd (main_points opa wa))) \<and>
      files (snd (points_script opa wa)) = files wa"
  proof
    assume h: "fst (main_points opa wa) = Inl KeyboardInterrupt"
    then have s: "points_script opa wa =
        (Clean, (snd (main_points opa wa))
                  \<lparr>trace := trace (snd (main_points opa wa)) @ [Print Interrupted]\<rparr>)"
      by (cases "main_points opa wa") (simp add: points_script_def console_print_def)
    from h have "fst (main_points opa wa) \<noteq> Inr ()" by simp
    from main_points_files [OF this] s main_points_trace [of wa opa]
    show "points_script opa wa =
        (Clean, (snd (main_points opa wa))
                  \<lparr>trace := trace (snd (main_points opa wa)) @ [Print Interrupted]\<rparr>) \<and>
      prefix (trace wa) (trace (snd (main_points opa wa))) \<and>
      files (snd (points_script opa wa)) = files wa" by simp
  qed
  have 2: "fst (main_points opb wb) = Inl eb \<and> eb \<noteq> KeyboardInterrupt \<longrightarrow>
      points_script opb wb =
        (Failure eb, (snd (main_points opb wb))
                  \<lparr>trace := trace (snd (main_points opb wb)) @ [Print (ErrorMsg eb)]\<rparr>) \<and>
      prefix (trace wb) (trace (snd (main_points opb wb))) \<and>
      files (snd (points_script opb wb)) = files wb"
  proof
    assume h: "fst (main_points opb wb) = Inl eb \<and> eb \<noteq> KeyboardInterrupt"
    then have s: "points_script opb wb =
        (Failure eb, (snd (main_points opb wb))
                  \<lparr>trace := trace (snd (main_points opb wb)) @ [Print (ErrorMsg eb)]\<rparr>)"
      by (cases "main_points opb wb"; cases eb) (simp_all add: points_script_def console_print_def)
    from h have "fst (main_points opb wb) \<noteq> Inr ()" by simp
    from main_points_files [OF this] s main_points_trace [of wb opb]
    show "points_script opb wb =
        (Failure eb, (snd (main_points opb wb))
                  \<lparr>trace := trace (snd (main_points opb wb)) @ [Print (ErrorMsg eb)]\<rparr>) \<and>
      prefix (trace wb) (trace (snd (main_points opb wb))) \<and>
      files (snd (points_script opb wb)) = files wb" by simp
  qed
  have 3: "fst (main_corners opc wc) = Inl KeyboardInterrupt \<longrightarrow>
      corners_script opc wc =
        (Clean, (snd (main_corners opc wc))
                  \<lparr>trace := trace (snd (main_corners opc wc)) @ [Print Interrupted]\<rparr>) \<and>
      prefix (trace wc) (trace (snd (main_corners opc wc))) \<and>
      files (snd (corners_script opc wc)) = files wc"
  proof
    assume h: "fst (main_corners opc wc) = Inl KeyboardInterrupt"
    then have s: "corners_script opc wc =
        (Clean, (snd (main_corners opc wc))
                  \<lparr>trace := trace (snd (main_corners opc wc)) @ [Print Interrupted]\<rparr>)"
      by (cases "main_corners opc wc") (simp add: corners_script_def console_print_def)
    from h have "fst (main_corners opc wc) \<noteq> Inr ()" by simp
    from main_corners_files [OF this] s main_corners_trace [of wc opc]
    show "corners_script opc wc =
        (Clean, (snd (main_corners opc wc))
                  \<lparr>trace := trace (snd (main_corners opc wc)) @ [Print Interrupted]\<rparr>) \<and>
      prefix (trace wc) (trace (snd (main_corners opc wc))) \<and>
      files (snd (corners_script opc wc)) = files wc" by simp
  qed
  have 4: "fst (main_corners opd wd) = Inl ed \<and> ed \<noteq> KeyboardInterrupt \<longrightarrow>
      corners_script opd wd =
        (Failure ed, (snd (main_corners opd wd))
                  \<lparr>trace := trace (snd (main_corners opd wd)) @ [Print (ErrorMsg ed)]\<rparr>) \<and>
      prefix (trace wd) (trace (snd (main_corners opd wd))) \<and>
      files (snd (corners_script opd wd)) = files wd"
  proof
    assume h: "fst (main_corners opd wd) = Inl ed \<and> ed \<noteq> KeyboardInterrupt"
    then have s: "corners_script opd wd =
        (Failure ed, (snd (main_corners opd wd))
                  \<lparr>trace := trace (snd (main_corners opd wd)) @ [Print (ErrorMsg ed)]\<rparr>)"
      by (cases "main_corners opd wd"; cases ed) (simp_all add: corners_script_def console_print_def)
    from h have "fst (main_corners opd wd) \<noteq> Inr ()" by simp
    from main_corners_files [OF this] s main_corners_trace [of wd opd]
    show "corners_script opd wd =
        (Failure ed, (snd (main_corners opd wd))
                  \<lparr>trace := trace (snd (main_corners opd wd)) @ [Print (ErrorMsg ed)]\<rparr>) \<and>
      prefix (trace wd) (trace (snd (main_corners opd wd))) \<and>
      files (snd (corners_script opd wd)) = files wd" by simp
  qed
  from 1 2 3 4 show ?thesis by blast
qed

lemma four_then_ctrl_c_run: "fst (main_points four_then_ctrl_c two_images) = Inl KeyboardInterrupt"
  by (simp add: main_points_def four_then_ctrl_c_def py_input_Line console_print_def Let_def
      click_points_on_image_ok ginput_four_free two_images_files)
     (simp add: click_points_on_image_def os_path_exists_def imread_def two_images_files
      subplots_imshow_def console_print_def ginput_cut_short Let_def)

lemma interrupting_run: "fst (main_corners interrupting six_paintings) = Inl KeyboardInterrupt"
  by (simp add: main_corners_def main_corners_with_def confirm_overwrite_def os_path_exists_def
      console_print_def six_paintings_files enumerate_eq_zip image_files_def loop_body_def
      paintings_wh_def py_input_def interrupting_def Let_def upt_rec)

lemma careful_without_paintings:
  "fst (main_corners careful two_images) = Inl (FileNotFoundError (image_files ! 0))"
  by (simp add: main_corners_def main_corners_with_def confirm_overwrite_def os_path_exists_def
      console_print_def enumerate_eq_zip image_files_def loop_body_def click_corners_def
      paintings_wh_def py_input_def careful_def Let_def upt_rec two_images_def emdash_def
      corners_output_file_def)

lemma four_then_ctrl_c_trace:
  "trace (snd (main_points four_then_ctrl_c two_images)) =
     [Print PointsIntro, Ask StartImage3, Show 1 img1_path,
      Print (PointsInstructions Image3Title 4), Close 1,
      Print (CollectedFrom 4 img1_path), Print (YouClicked 4), Ask (StartImage4 4),
      Show 1 img2_path, Print (PointsInstructions (Image4Title 4) 4)]"
  by (simp add: main_points_def four_then_ctrl_c_def py_input_Line console_print_def Let_def
      click_points_on_image_ok ginput_four_free two_images_files)
     (simp add: click_points_on_image_def os_path_exists_def imread_def two_images_files
      subplots_imshow_def console_print_def ginput_cut_short Let_def two_images_def
      next_num_def eval_nat_numeral img1_path_def img2_path_def)

lemma five_then_four_trace:
  "trace (snd (main_points five_then_four two_images)) =
     [Print PointsIntro, Ask StartImage3, Show 1 img1_path,
      Print (PointsInstructions Image3Title 4), Close 1,
      Print (CollectedFrom 5 img1_path), Print (YouClicked 5), Ask (StartImage4 5),
      Show 1 img2_path, Print (PointsInstructions (Image4Title 5) 5)]"
proof -
  have g1: "ginput (- 1) (session1 five_then_four) = Inr [(1, 1), (2, 1), (2, 2), (1, 2), (3, 3)]"
    by (simp add: five_then_four_def ginput_five_free)
  have g2: "ginput (- 1) (session2 five_then_four) = Inr [(1, 1), (2, 1), (2, 2), (1, 2)]"
    by (simp add: five_then_four_def ginput_four_free)
  have s1: "start1 five_then_four = Line []" and s2: "start2 five_then_four = Line []"
    by (simp_all add: five_then_four_def)
  have n: "4 \<le> length [(1::real, 1::real), (2, 1), (2, 2), (1, 2), (3, 3)]"
    "length [(1::real, 1::real), (2, 1), (2, 2), (1, 2)] <
     length [(1::real, 1::real), (2, 1), (2, 2), (1, 2), (3, 3)]"
    by simp_all
  from main_points_short [OF two_images_files(1) two_images_files(2) s1 s2 g1 g2 n]
  show ?thesis by (simp add: two_images_def next_num_def eval_nat_numeral)
qed

lemma interrupting_trace:
  "trace (snd (main_corners interrupting six_paintings)) =
     [Print CornersIntro, Print (ImageHeader 1 (image_files ! 0) 121.3 82.9),
      Ask (StartPrompt (image_files ! 0))]"
  by (simp add: main_corners_def main_corners_with_def confirm_overwrite_def os_path_exists_def
      console_print_def six_paintings_files enumerate_eq_zip image_files_def loop_body_def
      paintings_wh_def py_input_def interrupting_def Let_def upt_rec)
     (simp add: six_paintings_def)

lemma careful_without_paintings_trace:
  "trace (snd (main_corners careful two_images)) =
     [Print CornersIntro, Print (ImageHeader 1 (image_files ! 0) 121.3 82.9),
      Ask (StartPrompt (image_files ! 0))]"
  by (simp add: main_corners_def main_corners_with_def confirm_overwrite_def os_path_exists_def
      console_print_def enumerate_eq_zip image_files_def loop_body_def click_corners_def
      paintings_wh_def py_input_def careful_def Let_def upt_rec two_images_def emdash_def
      corners_output_file_def)

theorem entry_points_catch_and_reraise_witness:
  "fst (main_points four_then_ctrl_c two_images) = Inl KeyboardInterrupt \<and>
   fst (points_script four_then_ctrl_c two_images) = Clean \<and>
   trace (snd (points_script four_then_ctrl_c two_images)) =
     [Print PointsIntro, Ask StartImage3, Show 1 img1_path,
      Print (PointsInstructions Image3Title 4), Close 1,
      Print (CollectedFrom 4 img1_path), Print (YouClicked 4), Ask (StartImage4 4),
      Show 1 img2_path, Print (PointsInstructions (Image4Title 4) 4), Print Interrupted] \<and>
   fst (main_points five_then_four two_images) = Inl (ValueError 5 4) \<and>
   fst (points_script five_then_four two_images) = Failure (ValueError 5 4) \<and>
   trace (snd (points_script five_then_four two_images)) =
     [Print PointsIntro, Ask StartImage3, Show 1 img1_path,
      Print (PointsInstructions Image3Title 4), Close 1,
      Print (CollectedFrom 5 img1_path), Print (YouClicked 5), Ask (StartImage4 5),
      Show 1 img2_path, Print (PointsInstructions (Image4Title 5) 5),
      Print (ErrorMsg (ValueError 5 4))] \<and>
   fst (main_corners interrupting six_paintings) = Inl KeyboardInterrupt \<and>
   fst (corners_script interrupting six_paintings) = Clean \<and>
   trace (snd (corners_script interrupting six_paintings)) =
     [Print CornersIntro, Print (ImageHeader 1 (image_files ! 0) 121.3 82.9),
      Ask (StartPrompt (image_files ! 0)), Print Interrupted] \<and>
   fst (main_corners careful two_images) = Inl (FileNotFoundError (image_files ! 0)) \<and>
   fst (corners_script careful two_images) = Failure (FileNotFoundError (image_files ! 0)) \<and>
   trace (snd (corners_script careful two_images)) =
     [Print CornersIntro, Print (ImageHeader 1 (image_files ! 0) 121.3 82.9),
      Ask (StartPrompt (image_files ! 0)),
      Print (ErrorMsg (FileNotFoundError (image_files ! 0)))]"
proof -
  have b: "fst (main_points five_then_four two_images) = Inl (ValueError 5 4)"
    using five_then_four_run by simp
  from entry_points_catch_and_reraise
    [of four_then_ctrl_c two_images five_then_four two_images "ValueError 5 4"
        interrupting six_paintings careful two_images "FileNotFoundError (image_files ! 0)"]
    four_then_ctrl_c_run b interrupting_run careful_without_paintings
  have s: "points_script four_then_ctrl_c two_images =
        (Clean, (snd (main_points four_then_ctrl_c two_images))
           \<lparr>trace := trace (snd (main_points four_then_ctrl_c two_images)) @ [Print Interrupted]\<rparr>)"
    "points_script five_then_four two_images =
        (Failure (ValueError 5 4), (snd (main_points five_then_four two_images))
           \<lparr>trace := trace (snd (main_points five_then_four two_images)) @
              [Print (ErrorMsg (ValueError 5 4))]\<rparr>)"
    "corners_script interrupting six_paintings =
        (Clean, (snd (main_corners interrupting six_paintings))
           \<lparr>trace := trace (snd (main_corners interrupting six_paintings)) @ [Print Interrupted]\<rparr>)"
    "corners_script careful two_images =
        (Failure (FileNotFoundError (image_files ! 0)), (snd (main_corners careful two_images))
           \<lparr>trace := trace (snd (main_corners careful two_images)) @
              [Print (ErrorMsg (FileNotFoundError (image_files ! 0)))]\<rparr>)"
    by simp_all
  show ?thesis
    by (simp only: s fst_conv snd_conv four_then_ctrl_c_run b interrupting_run
        careful_without_paintings)
       (simp add: four_then_ctrl_c_trace five_then_four_trace interrupting_trace
        careful_without_paintings_trace)
qed

text \<open>
  C3 fails on the code. A corner-mode run in which the operator presses Enter after two clicks
  on the first painting succeeds and writes six arrays named \<open>corners_0\<close> to \<open>corners_5\<close>, but
  the first one has shape \<open>(2, 2)\<close>.
\<close>

theorem hasty_run_stores_short_array:
  "fst (main_corners hasty six_paintings) = Inr () \<and>
   files (snd (main_corners hasty six_paintings)) corners_output_file =
     Some (NpzFile
       [(''corners_0'', [(1, 1), (2, 1)]),
        (''corners_1'', [(1, 1), (2, 1), (2, 2), (1, 2)]),
        (''corners_2'', [(1, 1), (2, 1), (2, 2), (1, 2)]),
        (''corners_3'', [(1, 1), (2, 1), (2, 2), (1, 2)]),
        (''corners_4'', [(1, 1), (2, 1), (2, 2), (1, 2)]),
        (''corners_5'', [(1, 1), (2, 1), (2, 2), (1, 2)])]) \<and>
   np_shape [(1, 1), (2, 1)] = [2, 2]"
  using hasty_run_ok hasty_run_files by (simp add: np_shape_def)

subsection \<open>What a corner-mode run stores\<close>

lemma handler_length: "length (handler g clicks) \<le> Suc (length clicks)"
  by (cases g) simp_all

lemma event_loop_length:
  "int (length clicks) < n \<Longrightarrow> int (length (fst (event_loop n gs clicks))) \<le> n"
proof (induction gs arbitrary: clicks)
  case Nil
  then show ?case by simp
next
  case (Cons g gs)
  have h: "int (length (handler g clicks)) \<le> n"
    using handler_length [of g clicks] Cons.prems by linarith
  show ?case
  proof (cases "int (length (handler g clicks)) = n \<and> n > 0")
    case True
    then show ?thesis by (simp add: Let_def)
  next
    case False
    with h Cons.prems have "int (length (handler g clicks)) < n" by linarith
    from Cons.IH [OF this] False show ?thesis by (simp add: Let_def)
  qed
qed

lemma ginput_4_length:
  assumes "ginput 4 s = Inr pts"
  shows "length pts \<le> 4"
proof -
  have "int (length (fst (event_loop 4 (fst s) []))) \<le> 4"
    by (rule event_loop_length) simp
  moreover have "pts = fst (event_loop 4 (fst s) [])"
    using assms by (auto simp: ginput_def split: prod.splits bool.splits ending.splits)
  ultimately show ?thesis by simp
qed

lemma collect_enumerate_InrD:
  assumes "collect dims op (enumerate k fs) cp w = (Inr cp', w')"
  shows "(\<forall>i. k \<le> i \<and> i < k + length fs \<longrightarrow>
           (\<exists>c. cp' i = Some c \<and> ginput 4 (corner_session op i) = Inr c)) \<and>
         (\<forall>i < k. cp' i = cp i)"
  using assms
proof (induction fs arbitrary: k cp w)
  case Nil
  then show ?case by auto
next
  case (Cons f fs)
  obtain r w1 where b: "loop_body dims op k f cp w = (r, w1)"
    by (cases "loop_body dims op k f cp w")
  show ?case
  proof (cases r)
    case (Inl e)
    with b Cons.prems show ?thesis by simp
  next
    case (Inr cp1)
    with b Cons.prems have rest: "collect dims op (enumerate (Suc k) fs) cp1 w1 = (Inr cp', w')"
      by simp
    from b Inr obtain c where c: "ginput 4 (corner_session op k) = Inr c" "cp1 = cp(k \<mapsto> c)"
      using loop_body_InrD by blast
    note ih = Cons.IH [OF rest]
    from ih c have here: "cp' k = Some c" by simp
    have "\<exists>c. cp' i = Some c \<and> ginput 4 (corner_session op i) = Inr c"
      if "k \<le> i \<and> i < k + length (f # fs)" for i
    proof (cases "i = k")
      case True
      with here c show ?thesis by simp
    next
      case False
      with that have "Suc k \<le> i \<and> i < Suc k + length fs" by simp
      with ih show ?thesis by blast
    qed
    moreover have "cp' i = cp i" if "i < k" for i
      using ih c that by simp
    ultimately show ?thesis by blast
  qed
qed

text \<open>
  What a successful corner-mode run does store: unless the operator declined the overwrite,
  the archive holds, under the six names, what the click-capture facility returned for each
  painting, which is at most four points each.
\<close>

lemma main_corners_archive:
  assumes "fst (main_corners op w) = Inr ()"
  shows "files (snd (main_corners op w)) = files w \<or>
    (\<exists>c0 c1 c2 c3 c4 c5.
       ginput 4 (corner_session op 0) = Inr c0 \<and> ginput 4 (corner_session op 1) = Inr c1 \<and>
       ginput 4 (corner_session op 2) = Inr c2 \<and> ginput 4 (corner_session op 3) = Inr c3 \<and>
       ginput 4 (corner_session op 4) = Inr c4 \<and> ginput 4 (corner_session op 5) = Inr c5 \<and>
       files (snd (main_corners op w)) =
         (files w)(corners_output_file \<mapsto>
            NpzFile [(''corners_0'', c0), (''corners_1'', c1), (''corners_2'', c2),
                     (''corners_3'', c3), (''corners_4'', c4), (''corners_5'', c5)]))"
proof -
  let ?w1 = "console_print CornersIntro w"
  obtain r w2 where c: "confirm_overwrite op ?w1 = (r, w2)" by (cases "confirm_overwrite op ?w1")
  have f2: "files w2 = files w"
    using confirm_overwrite_files [of op ?w1] c by (simp add: console_print_def)
  obtain q w3 where k: "collect paintings_wh op (enumerate 0 image_files) Map.empty w2 = (q, w3)"
    by (cases "collect paintings_wh op (enumerate 0 image_files) Map.empty w2")
  have f3: "files w3 = files w"
    using collect_files [of paintings_wh op "enumerate 0 image_files" Map.empty w2] k f2 by simp
  show ?thesis
  proof (cases r)
    case (Inl e)
    with c assms show ?thesis by (simp add: main_corners_def main_corners_with_def)
  next
    case (Inr go)
    show ?thesis
    proof (cases go)
      case False
      with c Inr f2 show ?thesis by (simp add: main_corners_def main_corners_with_def)
    next
      case True
      show ?thesis
      proof (cases q)
        case (Inl e)
        with c \<open>r = Inr go\<close> True k assms show ?thesis
          by (simp add: main_corners_def main_corners_with_def)
      next
        case (Inr cp)
        from collect_enumerate_InrD [OF k [unfolded Inr]]
        have g: "\<forall>i. i < 6 \<longrightarrow> (\<exists>c. cp i = Some c \<and> ginput 4 (corner_session op i) = Inr c)"
          by (simp add: image_files_def)
        from g [rule_format, of 0] obtain c0 where
          c0: "cp 0 = Some c0" "ginput 4 (corner_session op 0) = Inr c0" by auto
        from g [rule_format, of 1] obtain c1 where
          c1: "cp 1 = Some c1" "ginput 4 (corner_session op 1) = Inr c1" by auto
        from g [rule_format, of 2] obtain c2 where
          c2: "cp 2 = Some c2" "ginput 4 (corner_session op 2) = Inr c2" by auto
        from g [rule_format, of 3] obtain c3 where
          c3: "cp 3 = Some c3" "ginput 4 (corner_session op 3) = Inr c3" by auto
        from g [rule_format, of 4] obtain c4 where
          c4: "cp 4 = Some c4" "ginput 4 (corner_session op 4) = Inr c4" by auto
        from g [rule_format, of 5] obtain c5 where
          c5: "cp 5 = Some c5" "ginput 4 (corner_session op 5) = Inr c5" by auto
        have nf: "find (\<lambda>k. cp k = None) [0..<6] = None"
          using g by (auto simp: find_None_iff)
        have "files (snd (save_corners cp w3)) =
           (files w)(corners_output_file \<mapsto>
            NpzFile [(''corners_0'', c0), (''corners_1'', c1), (''corners_2'', c2),
                     (''corners_3'', c3), (''corners_4'', c4), (''corners_5'', c5)])"
          using nf c0 c1 c2 c3 c4 c5 f3
          by (simp add: save_corners_def savez_def console_print_def Let_def)
        moreover have "main_corners op w = save_corners cp w3"
          using c \<open>r = Inr go\<close> True k Inr by (simp add: main_corners_def main_corners_with_def)
        ultimately show ?thesis using c0 c1 c2 c3 c4 c5 by simp
      qed
    qed
  qed
qed

end
